theory Spec2Isabelle
  imports Main "HOL-Library.Word" "HOL-Library.Multiset"
begin

section \<open>Values shared by all operations of the toolkit\<close>

text \<open>
  A Go \<^verbatim>\<open>error\<close> is modelled by its message: \<open>None\<close> is \<^verbatim>\<open>nil\<close>, \<open>Some m\<close> an error
  whose \<^verbatim>\<open>Error()\<close> is \<open>m\<close>. A Go string is a sequence of bytes, here a \<open>string\<close>.
  A function that can stop with a run-time panic returns an \<open>outcome\<close>.
\<close>

type_synonym error = "string option"

datatype 'a outcome = Panic string | Return 'a

text \<open>The receiver type \<^verbatim>\<open>Tools\<close> (v2/tools.go, lines 21-26); \<^verbatim>\<open>int64\<close> fields are integers,
  no arithmetic is done on them.\<close>

record Tools =
  MaxFileSize :: int
  AllowedFileTypes :: "string list"
  MaxJSONSize :: int
  AllowUnknownFields :: bool

record UploadedFile =
  NewFileName :: string
  OriginalFileName :: string
  FileSize :: int

section \<open>The host: standard library and operating system\<close>

text \<open>
  What the toolkit calls but does not define is a parameter of the model:
  \<^item> \<open>rand_Prime i\<close> is the result of the \<open>i\<close>-th call \<^verbatim>\<open>rand.Prime(rand.Reader, 64)\<close>,
    an error message or the 64-bit value \<^verbatim>\<open>p.Uint64()\<close>;
  \<^item> \<open>DetectContentType\<close> and \<open>EqualFold\<close> are \<^verbatim>\<open>http.DetectContentType\<close> and
    \<^verbatim>\<open>strings.EqualFold\<close>;
  \<^item> \<open>MkdirAll\<close> is the error of \<^verbatim>\<open>os.MkdirAll(path, 0755)\<close>;
  \<^item> \<open>range_keys ks\<close> is the order in which a \<^verbatim>\<open>range\<close> loop visits a map whose keys are
    \<open>ks\<close>: Go leaves that order unspecified.
\<close>

record host =
  rand_Prime :: "nat \<Rightarrow> string + 64 word"
  DetectContentType :: "string \<Rightarrow> string"
  EqualFold :: "string \<Rightarrow> string \<Rightarrow> bool"
  MkdirAll :: "string \<Rightarrow> error"
  range_keys :: "string list \<Rightarrow> string list"

text \<open>
  The mutable world: how many primes have been drawn, which directories exist, and the
  files created so far (directory, name, bytes written), oldest first.
\<close>

record world =
  rand_calls :: nat
  dirs :: "string list"
  disk :: "(string \<times> string \<times> string) list"

section \<open>RandomString\<close>

definition randomStringSource :: string where
  "randomStringSource = ''abcdefghijklmnopqrstuvwxyzABCDEFGHIJKLMNOPQRSTUVWXYZ0123456789_+''"

text \<open>
  The loop of \<^verbatim>\<open>RandomString\<close> (lines 32-39) over the \<open>k\<close> positions still to fill, \<open>s\<close>
  being the characters already chosen. A failed draw leaves the loop with the fixed text.
\<close>

fun RandomString_loop :: "host \<Rightarrow> nat \<Rightarrow> string \<Rightarrow> nat \<Rightarrow> string \<times> nat" where
  "RandomString_loop h 0 s c = (s, c)"
| "RandomString_loop h (Suc k) s c =
     (case rand_Prime h c of
        Inl err \<Rightarrow> (''RandomString Error'', Suc c)
      | Inr x \<Rightarrow>
          (let y = (of_nat (length randomStringSource) :: 64 word)
           in RandomString_loop h k (s @ [randomStringSource ! unat (x mod y)]) (Suc c)))"

text \<open>
  \<^verbatim>\<open>make([]rune, n)\<close> panics for a negative \<open>n\<close>, and for an \<open>n\<close> whose \<open>4 * n\<close> bytes are
  more than the runtime allocates at all, \<^verbatim>\<open>maxAlloc\<close>: \<open>2^48\<close> bytes on the 64-bit
  platforms, which the model takes.
\<close>

definition maxAlloc :: nat where
  "maxAlloc = 281474976710656"

definition RandomString :: "host \<Rightarrow> int \<Rightarrow> world \<Rightarrow> string outcome \<times> world" where
  "RandomString h n w =
     (if n < 0 \<or> int maxAlloc < 4 * n
      then (Panic ''runtime error: makeslice: len out of range'', w)
      else (case RandomString_loop h (nat n) [] (rand_calls w) of
              (s, c) \<Rightarrow> (Return s, w\<lparr>rand_calls := c\<rparr>)))"

section \<open>File upload\<close>

text \<open>
  One file part of a multipart body: its file name and bytes, and what the operating
  system answers while this part is handled (\<^verbatim>\<open>Open\<close>, \<^verbatim>\<open>Read\<close> and \<^verbatim>\<open>Seek\<close> on the part,
  \<^verbatim>\<open>os.Create\<close> of the destination, \<^verbatim>\<open>io.Copy\<close> into it). \<open>Copy_fail = Some (k, m)\<close> is a
  copy that fails with message \<open>m\<close> after \<open>k\<close> bytes.
\<close>

record FileHeader =
  Filename :: string
  content :: string
  Open_err :: error
  Read_err :: error
  Seek_err :: error
  Create_err :: error
  Copy_fail :: "(nat \<times> string) option"

text \<open>
  A request: the file parts of its body in the order the body holds them, each with the
  name of its form field, and the error of \<^verbatim>\<open>ParseMultipartForm(maxMemory)\<close>.
\<close>

record Request =
  parts :: "(string \<times> FileHeader) list"
  parse_err :: "int \<Rightarrow> error"

text \<open>\<^verbatim>\<open>MultipartForm.File\<close>: the map from a field name to the headers of its parts,
  which the parser appends in the order it reads them.\<close>

definition MultipartForm_File :: "(string \<times> FileHeader) list \<Rightarrow> string \<Rightarrow> FileHeader list option" where
  "MultipartForm_File ps k =
     (if k \<in> set (map fst ps) then Some (map snd (filter (\<lambda>p. fst p = k) ps)) else None)"

definition ParseMultipartForm :: "Request \<Rightarrow> int \<Rightarrow> string + (string \<Rightarrow> FileHeader list option)" where
  "ParseMultipartForm r maxMemory =
     (case parse_err r maxMemory of
        Some e \<Rightarrow> Inl e
      | None \<Rightarrow> Inr (MultipartForm_File (parts r)))"

text \<open>\<^verbatim>\<open>CreateDirIfNotExist\<close> (lines 166-174).\<close>

definition CreateDirIfNotExist :: "host \<Rightarrow> string \<Rightarrow> world \<Rightarrow> error \<times> world" where
  "CreateDirIfNotExist h path w =
     (if path \<notin> set (dirs w) then
        (case MkdirAll h path of
           Some e \<Rightarrow> (Some e, w)
         | None \<Rightarrow> (None, w\<lparr>dirs := dirs w @ [path]\<rparr>))
      else (None, w))"

text \<open>\<^verbatim>\<open>filepath.Ext\<close>: the suffix from the last dot of the last path element.\<close>

fun Ext_scan :: "string \<Rightarrow> string \<Rightarrow> string" where
  "Ext_scan [] suffix = []"
| "Ext_scan (c # front) suffix =
     (if c = CHR ''/'' then []
      else if c = CHR ''.'' then c # suffix
      else Ext_scan front (c # suffix))"

definition Ext :: "string \<Rightarrow> string" where
  "Ext path = Ext_scan (rev path) []"

text \<open>
  \<^verbatim>\<open>inFile.Read(buff)\<close> into the fresh 512-byte buffer (lines 89-94): the buffer afterwards
  and the error. A read at the end of the data moves nothing and reports \<^verbatim>\<open>io.EOF\<close>.
\<close>

definition Read_buff :: "FileHeader \<Rightarrow> string \<times> error" where
  "Read_buff fh =
     (case Read_err fh of
        Some e \<Rightarrow> (replicate 512 (CHR 0x00), Some e)
      | None \<Rightarrow>
          if content fh = [] then (replicate 512 (CHR 0x00), Some ''EOF'')
          else (take 512 (content fh) @ replicate (512 - length (content fh)) (CHR 0x00), None))"

text \<open>The allow-list loop of lines 97-109.\<close>

definition allowed :: "host \<Rightarrow> Tools \<Rightarrow> string \<Rightarrow> bool" where
  "allowed h t fileType =
     (if length (AllowedFileTypes t) > 0
      then list_ex (\<lambda>allowedFileType. EqualFold h fileType allowedFileType) (AllowedFileTypes t)
      else True)"

text \<open>
  The function literal of lines 80-142, called once for each file header with the
  list built so far. Every failure returns \<^verbatim>\<open>nil\<close> for the list.
\<close>

definition upload_part ::
  "host \<Rightarrow> Tools \<Rightarrow> string \<Rightarrow> bool \<Rightarrow> FileHeader \<Rightarrow> UploadedFile list \<Rightarrow> world
     \<Rightarrow> (UploadedFile list \<times> error) outcome \<times> world" where
  "upload_part h t uploadDir renameFile fileHeader uploadedFiles w =
     (case Open_err fileHeader of
        Some e \<Rightarrow> (Return ([], Some e), w)
      | None \<Rightarrow>
     (case Read_buff fileHeader of
        (buff, Some e) \<Rightarrow> (Return ([], Some e), w)
      | (buff, None) \<Rightarrow>
     (let fileType = DetectContentType h buff in
      if \<not> allowed h t fileType
      then (Return ([], Some ''the uploaded file type is not permitted''), w)
      else
     (case Seek_err fileHeader of
        Some e \<Rightarrow> (Return ([], Some e), w)
      | None \<Rightarrow>
     (case (if renameFile
            then (case RandomString h 25 w of
                    (Panic p, w1) \<Rightarrow> (Panic p, w1)
                  | (Return s, w1) \<Rightarrow> (Return (s @ Ext (Filename fileHeader)), w1))
            else (Return (Filename fileHeader), w)) of
        (Panic p, w1) \<Rightarrow> (Panic p, w1)
      | (Return newName, w1) \<Rightarrow>
     (case Create_err fileHeader of
        Some e \<Rightarrow> (Return ([], Some e), w1)
      | None \<Rightarrow>
     (case Copy_fail fileHeader of
        Some (k, e) \<Rightarrow>
          (Return ([], Some e),
           w1\<lparr>disk := disk w1 @ [(uploadDir, newName, take k (content fileHeader))]\<rparr>)
      | None \<Rightarrow>
          (Return
             (uploadedFiles @
                [\<lparr>NewFileName = newName, OriginalFileName = Filename fileHeader,
                  FileSize = int (length (content fileHeader))\<rparr>], None),
           w1\<lparr>disk := disk w1 @ [(uploadDir, newName, content fileHeader)]\<rparr>))))))))"

text \<open>
  The two loops of lines 78-147. \<open>Inl\<close> is a \<^verbatim>\<open>return\<close> out of \<^verbatim>\<open>UploadFiles\<close> from inside the
  loop (line 144), \<open>Inr\<close> the list with which the loop goes on.
\<close>

fun range_fileHeaders ::
  "host \<Rightarrow> Tools \<Rightarrow> string \<Rightarrow> bool \<Rightarrow> FileHeader list \<Rightarrow> UploadedFile list \<Rightarrow> world
     \<Rightarrow> ((UploadedFile list \<times> error) outcome + UploadedFile list) \<times> world" where
  "range_fileHeaders h t uploadDir renameFile [] uploadedFiles w = (Inr uploadedFiles, w)"
| "range_fileHeaders h t uploadDir renameFile (fileHeader # rest) uploadedFiles w =
     (case upload_part h t uploadDir renameFile fileHeader uploadedFiles w of
        (Panic p, w1) \<Rightarrow> (Inl (Panic p), w1)
      | (Return (ups, Some e), w1) \<Rightarrow> (Inl (Return (ups, Some e)), w1)
      | (Return (ups, None), w1) \<Rightarrow> range_fileHeaders h t uploadDir renameFile rest ups w1)"

fun range_File ::
  "host \<Rightarrow> Tools \<Rightarrow> string \<Rightarrow> bool \<Rightarrow> (string \<Rightarrow> FileHeader list option) \<Rightarrow> string list
     \<Rightarrow> UploadedFile list \<Rightarrow> world
     \<Rightarrow> ((UploadedFile list \<times> error) outcome + UploadedFile list) \<times> world" where
  "range_File h t uploadDir renameFile form [] uploadedFiles w = (Inr uploadedFiles, w)"
| "range_File h t uploadDir renameFile form (k # ks) uploadedFiles w =
     (case form k of
        None \<Rightarrow> range_File h t uploadDir renameFile form ks uploadedFiles w
      | Some fileHeaders \<Rightarrow>
          (case range_fileHeaders h t uploadDir renameFile fileHeaders uploadedFiles w of
             (Inl ret, w1) \<Rightarrow> (Inl ret, w1)
           | (Inr ups, w1) \<Rightarrow> range_File h t uploadDir renameFile form ks ups w1))"

text \<open>The keys of \<^verbatim>\<open>MultipartForm.File\<close>, each once.\<close>

definition File_keys :: "Request \<Rightarrow> string list" where
  "File_keys r = remdups (map fst (parts r))"

text \<open>
  \<^verbatim>\<open>UploadFiles\<close> (lines 56-150). The receiver is returned as the call leaves it, with the
  world and the two results.
\<close>

definition UploadFiles ::
  "host \<Rightarrow> Tools \<Rightarrow> Request \<Rightarrow> string \<Rightarrow> bool list \<Rightarrow> world
     \<Rightarrow> Tools \<times> (UploadedFile list \<times> error) outcome \<times> world" where
  "UploadFiles h t r uploadDir rename w =
     (let renameFile = (if length rename > 0 then rename ! 0 else True);
          t1 = (if MaxFileSize t = 0 then t\<lparr>MaxFileSize := 1024 * 1024 * 1024\<rparr> else t)
      in case CreateDirIfNotExist h uploadDir w of
           (Some e, w1) \<Rightarrow> (t1, Return ([], Some e), w1)
         | (None, w1) \<Rightarrow>
             (case ParseMultipartForm r (MaxFileSize t1) of
                Inl e \<Rightarrow> (t1, Return ([], Some ''the uploaded file is too big''), w1)
              | Inr form \<Rightarrow>
                  (case range_File h t1 uploadDir renameFile form
                          (range_keys h (File_keys r)) [] w1 of
                     (Inl ret, w2) \<Rightarrow> (t1, ret, w2)
                   | (Inr uploadedFiles, w2) \<Rightarrow> (t1, Return (uploadedFiles, None), w2))))"

text \<open>\<^verbatim>\<open>UploadOneFile\<close> (lines 153-163); \<^verbatim>\<open>files[0]\<close> panics on an empty list.\<close>

definition UploadOneFile ::
  "host \<Rightarrow> Tools \<Rightarrow> Request \<Rightarrow> string \<Rightarrow> bool list \<Rightarrow> world
     \<Rightarrow> Tools \<times> (UploadedFile option \<times> error) outcome \<times> world" where
  "UploadOneFile h t r uploadDir rename w =
     (let renameFile = (if length rename > 0 then rename ! 0 else True)
      in case UploadFiles h t r uploadDir [renameFile] w of
           (t1, Panic p, w1) \<Rightarrow> (t1, Panic p, w1)
         | (t1, Return (files, Some e), w1) \<Rightarrow> (t1, Return (None, Some e), w1)
         | (t1, Return (files, None), w1) \<Rightarrow>
             (case files of
                [] \<Rightarrow> (t1, Panic ''runtime error: index out of range [0] with length 0'', w1)
              | f # _ \<Rightarrow> (t1, Return (Some f, None), w1)))"

text \<open>
  What it means for a record to describe a part: the original name and the size are the
  part's, and the stored name is the part's name unless the file was renamed.
\<close>

definition corresponds :: "bool \<Rightarrow> FileHeader \<Rightarrow> UploadedFile \<Rightarrow> bool" where
  "corresponds renameFile fh u =
     (OriginalFileName u = Filename fh \<and> FileSize u = int (length (content fh)) \<and>
      (renameFile \<or> NewFileName u = Filename fh))"

text \<open>
  The file headers in the order in which the two loops reach them: field by field in the
  order of the \<^verbatim>\<open>range\<close> over the map, and inside a field in the order of the body.
\<close>

definition visit_order :: "host \<Rightarrow> Request \<Rightarrow> FileHeader list" where
  "visit_order h r =
     concat (map (\<lambda>k. case MultipartForm_File (parts r) k of None \<Rightarrow> [] | Some fhs \<Rightarrow> fhs)
               (range_keys h (File_keys r)))"

subsection \<open>Example inputs\<close>

text \<open>
  A host for the examples. Its sniffer knows the PNG signature and answers
  \<^verbatim>\<open>application/octet-stream\<close> otherwise, as \<^verbatim>\<open>http.DetectContentType\<close> does on the data used
  below; its \<open>EqualFold\<close> folds ASCII letters; every prime drawn is \<open>2^64 - 59\<close>.
\<close>

definition png_signature :: string where
  "png_signature = [CHR 0x89, CHR ''P'', CHR ''N'', CHR ''G'', CHR 0x0D, CHR 0x0A, CHR 0x1A, CHR 0x0A]"

definition sniff_example :: "string \<Rightarrow> string" where
  "sniff_example data =
     (if take 8 data = png_signature then ''image/png'' else ''application/octet-stream'')"

definition ascii_lower :: "char \<Rightarrow> char" where
  "ascii_lower c =
     (case map_of (zip ''ABCDEFGHIJKLMNOPQRSTUVWXYZ'' ''abcdefghijklmnopqrstuvwxyz'') c of
        Some l \<Rightarrow> l
      | None \<Rightarrow> c)"

definition ascii_EqualFold :: "string \<Rightarrow> string \<Rightarrow> bool" where
  "ascii_EqualFold a b = (map ascii_lower a = map ascii_lower b)"

definition example_host :: "(string list \<Rightarrow> string list) \<Rightarrow> host" where
  "example_host order =
     \<lparr>rand_Prime = (\<lambda>i. Inr 18446744073709551557), DetectContentType = sniff_example,
      EqualFold = ascii_EqualFold, MkdirAll = (\<lambda>p. None), range_keys = order\<rparr>"

definition example_world :: world where
  "example_world = \<lparr>rand_calls = 0, dirs = [], disk = []\<rparr>"

definition file_part :: "string \<Rightarrow> string \<Rightarrow> FileHeader" where
  "file_part name bytes =
     \<lparr>Filename = name, content = bytes, Open_err = None, Read_err = None, Seek_err = None,
      Create_err = None, Copy_fail = None\<rparr>"

definition example_request :: "(string \<times> FileHeader) list \<Rightarrow> Request" where
  "example_request ps = \<lparr>parts = ps, parse_err = (\<lambda>maxMemory. None)\<rparr>"

definition example_tools :: "string list \<Rightarrow> Tools" where
  "example_tools types =
     \<lparr>MaxFileSize = 0, AllowedFileTypes = types, MaxJSONSize = 0, AllowUnknownFields = False\<rparr>"

text \<open>A host whose random source fails at every draw.\<close>

definition broken_rand_host :: host where
  "broken_rand_host = (example_host id)\<lparr>rand_Prime := (\<lambda>i. Inl ''unexpected EOF'')\<rparr>"

section \<open>Slugify\<close>

text \<open>
  \<^verbatim>\<open>strings.ToLower\<close> and the regular expression read a Go string rune by rune. The
  model takes the string as the list of its runes (code points), a byte that is no valid
  UTF-8 being the rune U+FFFD, as both decode it; the empty string is the empty list.
  A slug holds ASCII only, where runes and bytes are the same.
\<close>

type_synonym rune = nat

definition runes :: "string \<Rightarrow> rune list" where
  "runes s = map of_char s"

text \<open>
  \<^verbatim>\<open>unicode.ToLower\<close>: ASCII is handled in place, any other rune goes to the case table of
  the Unicode package, a parameter here.
\<close>

definition unicode_ToLower :: "(rune \<Rightarrow> rune) \<Rightarrow> rune \<Rightarrow> rune" where
  "unicode_ToLower caseTable r =
     (if r \<le> 127 then (if 65 \<le> r \<and> r \<le> 90 then r + (97 - 65) else r)
      else caseTable r)"

definition ToLower :: "(rune \<Rightarrow> rune) \<Rightarrow> rune list \<Rightarrow> rune list" where
  "ToLower caseTable s = map (unicode_ToLower caseTable) s"

text \<open>The character class \<^verbatim>\<open>[^a-z\d]\<close> of line 181.\<close>

definition re_class :: "rune \<Rightarrow> bool" where
  "re_class r = (\<not> ((97 \<le> r \<and> r \<le> 122) \<or> (48 \<le> r \<and> r \<le> 57)))"

text \<open>
  \<^verbatim>\<open>re.ReplaceAllLiteralString\<close> for the expression \<^verbatim>\<open>[^a-z\d]+\<close>: scanning from the left, a
  match starts at the first rune of the class and, the \<^verbatim>\<open>+\<close> being greedy, takes every
  rune of the class that follows; the scan goes on behind the match.
\<close>

function ReplaceAllLiteralString :: "rune list \<Rightarrow> rune list \<Rightarrow> rune list" where
  "ReplaceAllLiteralString [] repl = []"
| "ReplaceAllLiteralString (c # src) repl =
     (if re_class c then repl @ ReplaceAllLiteralString (dropWhile re_class src) repl
      else c # ReplaceAllLiteralString src repl)"
  by pat_completeness auto
termination
  by (relation "measure (\<lambda>(src, repl). length src)")
     (auto simp: less_Suc_eq_le length_dropWhile_le)

text \<open>\<^verbatim>\<open>strings.Trim\<close> with a cutset of one ASCII byte, and its two loops.\<close>

fun trimLeftByte :: "rune list \<Rightarrow> rune \<Rightarrow> rune list" where
  "trimLeftByte [] c = []"
| "trimLeftByte (x # s) c = (if x = c then trimLeftByte s c else x # s)"

function trimRightByte :: "rune list \<Rightarrow> rune \<Rightarrow> rune list" where
  "trimRightByte s c =
     (if length s > 0 \<and> s ! (length s - 1) = c then trimRightByte (take (length s - 1) s) c
      else s)"
  by pat_completeness auto
termination
  by (relation "measure (\<lambda>(s, c). length s)") auto

declare trimRightByte.simps [simp del]

definition Trim :: "rune list \<Rightarrow> rune list \<Rightarrow> rune list" where
  "Trim s cutset =
     (if s = [] \<or> cutset = [] then s
      else trimLeftByte (trimRightByte s (cutset ! 0)) (cutset ! 0))"

text \<open>\<^verbatim>\<open>Slugify\<close> (lines 177-187).\<close>

definition Slugify :: "(rune \<Rightarrow> rune) \<Rightarrow> rune list \<Rightarrow> rune list \<times> error" where
  "Slugify caseTable s =
     (if s = [] then ([], Some ''empty string not permitted'')
      else
        (let slug = Trim (ReplaceAllLiteralString (ToLower caseTable s) (runes ''-'')) (runes ''-'')
         in if length slug = 0
            then ([], Some ''after removing characters, slug is zero length'')
            else (slug, None)))"

subsection \<open>The slug as the specification words it\<close>

text \<open>
  The maximal runs of a list with respect to a property: the list cut wherever the
  property changes.
\<close>

function spec_runs :: "('a \<Rightarrow> bool) \<Rightarrow> 'a list \<Rightarrow> 'a list list" where
  "spec_runs P [] = []"
| "spec_runs P (x # xs) =
     (x # takeWhile (\<lambda>y. P y = P x) xs) # spec_runs P (dropWhile (\<lambda>y. P y = P x) xs)"
  by pat_completeness auto
termination
  by (relation "measure (\<lambda>(P, xs). length xs)")
     (auto simp: less_Suc_eq_le length_dropWhile_le)

text \<open>
  Lower-case, put one hyphen for every maximal run of characters outside \<open>[a-z0-9]\<close>,
  take the hyphens off both ends.
\<close>

definition spec_outside :: "rune \<Rightarrow> bool" where
  "spec_outside r = (r \<notin> set (runes ''abcdefghijklmnopqrstuvwxyz0123456789''))"

definition spec_hyphenate :: "rune list \<Rightarrow> rune list" where
  "spec_hyphenate s =
     concat (map (\<lambda>run. if spec_outside (hd run) then runes ''-'' else run)
               (spec_runs spec_outside s))"

definition spec_trim :: "rune list \<Rightarrow> rune list" where
  "spec_trim s =
     rev (dropWhile (\<lambda>c. c = of_char (CHR ''-'')) (rev (dropWhile (\<lambda>c. c = of_char (CHR ''-'')) s)))"

definition spec_slug :: "(rune \<Rightarrow> rune) \<Rightarrow> rune list \<Rightarrow> rune list" where
  "spec_slug caseTable s = spec_trim (spec_hyphenate (map (unicode_ToLower caseTable) s))"

text \<open>A case table for the examples: that of Unicode on the runes they use.\<close>

definition example_caseTable :: "rune \<Rightarrow> rune" where
  "example_caseTable r = (if r = 0x212A then 107 else if r = 0x130 then 105 else r)"

section \<open>ReadJSON\<close>

subsection \<open>Errors that a decoder returns\<close>

text \<open>
  \<^verbatim>\<open>ReadJSON\<close> tells the errors of \<^verbatim>\<open>Decode\<close> apart by type, by identity and by message.
  An \<open>unmarshal_error\<close> is what storing a scanned value into a destination can report;
  \<open>ErrorString\<close> is an error made by \<^verbatim>\<open>errors.New\<close> or \<^verbatim>\<open>fmt.Errorf\<close>.
\<close>

datatype unmarshal_error =
    UnmarshalTypeError string nat
  | InvalidUnmarshalError string
  | ErrorString string

datatype go_error =
    SyntaxError string nat
  | UnmarshalFailure unmarshal_error
  | io_ErrUnexpectedEOF
  | io_EOF
  | MaxBytesError

subsection \<open>The scanner of encoding/json\<close>

text \<open>
  The state machine that finds the end of a JSON value (scanner.go of the standard
  library). Of a syntax error the model keeps the context, as plain text, and the
  offset; the offset is all that \<^verbatim>\<open>ReadJSON\<close> reads.
\<close>

datatype scan_state =
    StBeginValueOrEmpty | StBeginValue | StBeginStringOrEmpty | StBeginString
  | StEndValue | StEndTop
  | StInString | StInStringEsc | StInStringEscU | StInStringEscU1 | StInStringEscU12
  | StInStringEscU123
  | StNeg | St1 | St0 | StDot | StDot0 | StE | StESign | StE0
  | StT | StTr | StTru | StF | StFa | StFal | StFals | StN | StNu | StNul
  | StError

datatype parse_state = parseObjectKey | parseObjectValue | parseArrayValue

datatype scan_code =
    scanContinue | scanBeginLiteral | scanBeginObject | scanObjectKey | scanObjectValue
  | scanEndObject | scanBeginArray | scanArrayValue | scanEndArray | scanSkipSpace
  | scanEnd | scanError

record scanner =
  step :: scan_state
  endTop :: bool
  parseState :: "parse_state list"
  scan_err :: "(string \<times> nat) option"
  scan_bytes :: nat

definition maxNestingDepth :: nat where
  "maxNestingDepth = 10000"

definition reset :: "scanner \<Rightarrow> scanner" where
  "reset s = s\<lparr>step := StBeginValue, parseState := [], scan_err := None, endTop := False\<rparr>"

definition scan_error :: "scanner \<Rightarrow> string \<Rightarrow> scan_code \<times> scanner" where
  "scan_error s context = (scanError, s\<lparr>step := StError, scan_err := Some (context, scan_bytes s)\<rparr>)"

definition pushParseState :: "scanner \<Rightarrow> parse_state \<Rightarrow> scan_code \<Rightarrow> scan_code \<times> scanner" where
  "pushParseState s newParseState successState =
     (let s1 = s\<lparr>parseState := parseState s @ [newParseState]\<rparr>
      in if length (parseState s1) \<le> maxNestingDepth then (successState, s1)
         else scan_error s1 ''exceeded max depth'')"

definition popParseState :: "scanner \<Rightarrow> scanner" where
  "popParseState s =
     (let n = length (parseState s) - 1;
          s1 = s\<lparr>parseState := take n (parseState s)\<rparr>
      in if n = 0 then s1\<lparr>step := StEndTop, endTop := True\<rparr> else s1\<lparr>step := StEndValue\<rparr>)"

definition isSpace :: "char \<Rightarrow> bool" where
  "isSpace c = (c = CHR '' '' \<or> c = CHR 0x09 \<or> c = CHR 0x0D \<or> c = CHR 0x0A)"

definition isDigit :: "char \<Rightarrow> bool" where
  "isDigit c = ((48::nat) \<le> of_char c \<and> of_char c \<le> (57::nat))"

definition isHex :: "char \<Rightarrow> bool" where
  "isHex c = (isDigit c \<or> ((97::nat) \<le> of_char c \<and> of_char c \<le> (102::nat))
                \<or> ((65::nat) \<le> of_char c \<and> of_char c \<le> (70::nat)))"

definition stateEndTop :: "scanner \<Rightarrow> char \<Rightarrow> scan_code \<times> scanner" where
  "stateEndTop s c =
     (if \<not> isSpace c then (scanEnd, snd (scan_error s ''after top-level value''))
      else (scanEnd, s))"

definition stateEndValue :: "scanner \<Rightarrow> char \<Rightarrow> scan_code \<times> scanner" where
  "stateEndValue s c =
     (let n = length (parseState s)
      in if n = 0 then stateEndTop (s\<lparr>step := StEndTop, endTop := True\<rparr>) c
         else if isSpace c then (scanSkipSpace, s\<lparr>step := StEndValue\<rparr>)
         else (case parseState s ! (n - 1) of
                 parseObjectKey \<Rightarrow>
                   if c = CHR '':''
                   then (scanObjectKey,
                         s\<lparr>parseState := (parseState s)[n - 1 := parseObjectValue],
                           step := StBeginValue\<rparr>)
                   else scan_error s ''after object key''
               | parseObjectValue \<Rightarrow>
                   if c = CHR '',''
                   then (scanObjectValue,
                         s\<lparr>parseState := (parseState s)[n - 1 := parseObjectKey],
                           step := StBeginString\<rparr>)
                   else if c = CHR ''}'' then (scanEndObject, popParseState s)
                   else scan_error s ''after object key:value pair''
               | parseArrayValue \<Rightarrow>
                   if c = CHR '','' then (scanArrayValue, s\<lparr>step := StBeginValue\<rparr>)
                   else if c = CHR '']'' then (scanEndArray, popParseState s)
                   else scan_error s ''after array element''))"

definition stateBeginValue :: "scanner \<Rightarrow> char \<Rightarrow> scan_code \<times> scanner" where
  "stateBeginValue s c =
     (if isSpace c then (scanSkipSpace, s)
      else if c = CHR ''{''
        then pushParseState (s\<lparr>step := StBeginStringOrEmpty\<rparr>) parseObjectKey scanBeginObject
      else if c = CHR ''[''
        then pushParseState (s\<lparr>step := StBeginValueOrEmpty\<rparr>) parseArrayValue scanBeginArray
      else if c = CHR 0x22 then (scanBeginLiteral, s\<lparr>step := StInString\<rparr>)
      else if c = CHR ''-'' then (scanBeginLiteral, s\<lparr>step := StNeg\<rparr>)
      else if c = CHR ''0'' then (scanBeginLiteral, s\<lparr>step := St0\<rparr>)
      else if c = CHR ''t'' then (scanBeginLiteral, s\<lparr>step := StT\<rparr>)
      else if c = CHR ''f'' then (scanBeginLiteral, s\<lparr>step := StF\<rparr>)
      else if c = CHR ''n'' then (scanBeginLiteral, s\<lparr>step := StN\<rparr>)
      else if (49::nat) \<le> of_char c \<and> of_char c \<le> (57::nat)
        then (scanBeginLiteral, s\<lparr>step := St1\<rparr>)
      else scan_error s ''looking for beginning of value'')"

definition stateBeginValueOrEmpty :: "scanner \<Rightarrow> char \<Rightarrow> scan_code \<times> scanner" where
  "stateBeginValueOrEmpty s c =
     (if isSpace c then (scanSkipSpace, s)
      else if c = CHR '']'' then stateEndValue s c
      else stateBeginValue s c)"

definition stateBeginString :: "scanner \<Rightarrow> char \<Rightarrow> scan_code \<times> scanner" where
  "stateBeginString s c =
     (if isSpace c then (scanSkipSpace, s)
      else if c = CHR 0x22 then (scanBeginLiteral, s\<lparr>step := StInString\<rparr>)
      else scan_error s ''looking for beginning of object key string'')"

definition stateBeginStringOrEmpty :: "scanner \<Rightarrow> char \<Rightarrow> scan_code \<times> scanner" where
  "stateBeginStringOrEmpty s c =
     (if isSpace c then (scanSkipSpace, s)
      else if c = CHR ''}''
        then (let n = length (parseState s)
              in stateEndValue (s\<lparr>parseState := (parseState s)[n - 1 := parseObjectValue]\<rparr>) c)
      else stateBeginString s c)"

definition stateInString :: "scanner \<Rightarrow> char \<Rightarrow> scan_code \<times> scanner" where
  "stateInString s c =
     (if c = CHR 0x22 then (scanContinue, s\<lparr>step := StEndValue\<rparr>)
      else if c = CHR 0x5C then (scanContinue, s\<lparr>step := StInStringEsc\<rparr>)
      else if of_char c < (0x20::nat) then scan_error s ''in string literal''
      else (scanContinue, s))"

definition stateInStringEsc :: "scanner \<Rightarrow> char \<Rightarrow> scan_code \<times> scanner" where
  "stateInStringEsc s c =
     (if c \<in> set ''bfnrt'' \<or> c = CHR 0x5C \<or> c = CHR ''/'' \<or> c = CHR 0x22
        then (scanContinue, s\<lparr>step := StInString\<rparr>)
      else if c = CHR ''u'' then (scanContinue, s\<lparr>step := StInStringEscU\<rparr>)
      else scan_error s ''in string escape code'')"

definition stateHex :: "scan_state \<Rightarrow> scanner \<Rightarrow> char \<Rightarrow> scan_code \<times> scanner" where
  "stateHex next s c =
     (if isHex c then (scanContinue, s\<lparr>step := next\<rparr>)
      else scan_error s ''in hexadecimal character escape'')"

definition state0 :: "scanner \<Rightarrow> char \<Rightarrow> scan_code \<times> scanner" where
  "state0 s c =
     (if c = CHR ''.'' then (scanContinue, s\<lparr>step := StDot\<rparr>)
      else if c = CHR ''e'' \<or> c = CHR ''E'' then (scanContinue, s\<lparr>step := StE\<rparr>)
      else stateEndValue s c)"

definition state1 :: "scanner \<Rightarrow> char \<Rightarrow> scan_code \<times> scanner" where
  "state1 s c =
     (if isDigit c then (scanContinue, s\<lparr>step := St1\<rparr>) else state0 s c)"

definition stateNeg :: "scanner \<Rightarrow> char \<Rightarrow> scan_code \<times> scanner" where
  "stateNeg s c =
     (if c = CHR ''0'' then (scanContinue, s\<lparr>step := St0\<rparr>)
      else if (49::nat) \<le> of_char c \<and> of_char c \<le> (57::nat)
        then (scanContinue, s\<lparr>step := St1\<rparr>)
      else scan_error s ''in numeric literal'')"

definition stateDot :: "scanner \<Rightarrow> char \<Rightarrow> scan_code \<times> scanner" where
  "stateDot s c =
     (if isDigit c then (scanContinue, s\<lparr>step := StDot0\<rparr>)
      else scan_error s ''after decimal point in numeric literal'')"

definition stateDot0 :: "scanner \<Rightarrow> char \<Rightarrow> scan_code \<times> scanner" where
  "stateDot0 s c =
     (if isDigit c then (scanContinue, s)
      else if c = CHR ''e'' \<or> c = CHR ''E'' then (scanContinue, s\<lparr>step := StE\<rparr>)
      else stateEndValue s c)"

definition stateESign :: "scanner \<Rightarrow> char \<Rightarrow> scan_code \<times> scanner" where
  "stateESign s c =
     (if isDigit c then (scanContinue, s\<lparr>step := StE0\<rparr>)
      else scan_error s ''in exponent of numeric literal'')"

definition stateE :: "scanner \<Rightarrow> char \<Rightarrow> scan_code \<times> scanner" where
  "stateE s c =
     (if c = CHR ''+'' \<or> c = CHR ''-'' then (scanContinue, s\<lparr>step := StESign\<rparr>)
      else stateESign s c)"

definition stateE0 :: "scanner \<Rightarrow> char \<Rightarrow> scan_code \<times> scanner" where
  "stateE0 s c = (if isDigit c then (scanContinue, s) else stateEndValue s c)"

text \<open>The states inside \<^verbatim>\<open>true\<close>, \<^verbatim>\<open>false\<close> and \<^verbatim>\<open>null\<close>: one expected letter each.\<close>

definition stateLetter ::
  "char \<Rightarrow> scan_state \<Rightarrow> string \<Rightarrow> scanner \<Rightarrow> char \<Rightarrow> scan_code \<times> scanner" where
  "stateLetter expected next context s c =
     (if c = expected then (scanContinue, s\<lparr>step := next\<rparr>) else scan_error s context)"

text \<open>\<^verbatim>\<open>s.step(s, c)\<close>: the function that the field \<^verbatim>\<open>step\<close> holds, applied.\<close>

definition scan_step :: "scanner \<Rightarrow> char \<Rightarrow> scan_code \<times> scanner" where
  "scan_step s c =
     (case step s of
        StBeginValueOrEmpty \<Rightarrow> stateBeginValueOrEmpty s c
      | StBeginValue \<Rightarrow> stateBeginValue s c
      | StBeginStringOrEmpty \<Rightarrow> stateBeginStringOrEmpty s c
      | StBeginString \<Rightarrow> stateBeginString s c
      | StEndValue \<Rightarrow> stateEndValue s c
      | StEndTop \<Rightarrow> stateEndTop s c
      | StInString \<Rightarrow> stateInString s c
      | StInStringEsc \<Rightarrow> stateInStringEsc s c
      | StInStringEscU \<Rightarrow> stateHex StInStringEscU1 s c
      | StInStringEscU1 \<Rightarrow> stateHex StInStringEscU12 s c
      | StInStringEscU12 \<Rightarrow> stateHex StInStringEscU123 s c
      | StInStringEscU123 \<Rightarrow> stateHex StInString s c
      | StNeg \<Rightarrow> stateNeg s c
      | St1 \<Rightarrow> state1 s c
      | St0 \<Rightarrow> state0 s c
      | StDot \<Rightarrow> stateDot s c
      | StDot0 \<Rightarrow> stateDot0 s c
      | StE \<Rightarrow> stateE s c
      | StESign \<Rightarrow> stateESign s c
      | StE0 \<Rightarrow> stateE0 s c
      | StT \<Rightarrow> stateLetter (CHR ''r'') StTr ''in literal true (expecting r)'' s c
      | StTr \<Rightarrow> stateLetter (CHR ''u'') StTru ''in literal true (expecting u)'' s c
      | StTru \<Rightarrow> stateLetter (CHR ''e'') StEndValue ''in literal true (expecting e)'' s c
      | StF \<Rightarrow> stateLetter (CHR ''a'') StFa ''in literal false (expecting a)'' s c
      | StFa \<Rightarrow> stateLetter (CHR ''l'') StFal ''in literal false (expecting l)'' s c
      | StFal \<Rightarrow> stateLetter (CHR ''s'') StFals ''in literal false (expecting s)'' s c
      | StFals \<Rightarrow> stateLetter (CHR ''e'') StEndValue ''in literal false (expecting e)'' s c
      | StN \<Rightarrow> stateLetter (CHR ''u'') StNu ''in literal null (expecting u)'' s c
      | StNu \<Rightarrow> stateLetter (CHR ''l'') StNul ''in literal null (expecting l)'' s c
      | StNul \<Rightarrow> stateLetter (CHR ''l'') StEndValue ''in literal null (expecting l)'' s c
      | StError \<Rightarrow> (scanError, s))"

subsection \<open>The limited body and the decoder\<close>

text \<open>
  \<^verbatim>\<open>http.MaxBytesReader(w, r.Body, n)\<close> over a body that ends with \<^verbatim>\<open>io.EOF\<close>: the bytes it
  delivers, and whether the read behind them fails with ``request body too large''
  instead of \<^verbatim>\<open>io.EOF\<close>. A negative limit counts as 0.
\<close>

definition MaxBytesReader :: "string \<Rightarrow> int \<Rightarrow> string \<times> bool" where
  "MaxBytesReader body n = (take (nat n) body, nat n < length body)"

text \<open>
  The decoder reads blocks into a buffer and scans every byte it has got before it
  looks at the error of the read. What it returns depends on the bytes the reader
  delivers and on the error behind them, not on the blocks; the model keeps the
  delivered bytes not yet consumed in \<open>dec_rest\<close>.
\<close>

record Decoder =
  dec_rest :: string
  dec_over :: bool
  dec_scan :: scanner
  dec_err :: "go_error option"
  disallowUnknownFields :: bool

definition NewDecoder :: "string \<times> bool \<Rightarrow> Decoder" where
  "NewDecoder r =
     \<lparr>dec_rest = fst r, dec_over = snd r,
      dec_scan = \<lparr>step = StBeginValue, endTop = False, parseState = [], scan_err = None,
                   scan_bytes = 0\<rparr>,
      dec_err = None, disallowUnknownFields = False\<rparr>"

datatype scan_result = Found nat | Rejected | Exhausted

text \<open>
  The inner loop of \<^verbatim>\<open>readValue\<close> over the buffered bytes from position \<open>scanp\<close>:
  \<open>Found n\<close> when the value ends after \<open>n\<close> bytes.
\<close>

fun scan_buf :: "scanner \<Rightarrow> string \<Rightarrow> nat \<Rightarrow> scan_result \<times> scanner" where
  "scan_buf s [] scanp = (Exhausted, s)"
| "scan_buf s (c # buf) scanp =
     (case scan_step (s\<lparr>scan_bytes := scan_bytes s + 1\<rparr>) c of
        (code, s1) \<Rightarrow>
          if code = scanEnd then (Found scanp, s1\<lparr>scan_bytes := scan_bytes s1 - 1\<rparr>)
          else if code = scanEndObject \<or> code = scanEndArray then
            (case stateEndValue s1 (CHR '' '') of
               (code2, s2) \<Rightarrow>
                 if code2 = scanEnd then (Found (scanp + 1), s2)
                 else scan_buf s2 buf (scanp + 1))
          else if code = scanError then (Rejected, s1)
          else scan_buf s1 buf (scanp + 1))"

definition nonSpace :: "string \<Rightarrow> bool" where
  "nonSpace b = list_ex (\<lambda>c. \<not> isSpace c) b"

definition readValue :: "Decoder \<Rightarrow> (go_error + nat) \<times> Decoder" where
  "readValue dec =
     (case scan_buf (reset (dec_scan dec)) (dec_rest dec) 0 of
        (Found n, s) \<Rightarrow> (Inr n, dec\<lparr>dec_scan := s\<rparr>)
      | (Rejected, s) \<Rightarrow>
          (let e = (case scan_err s of
                      Some (context, offset) \<Rightarrow> SyntaxError context offset
                    | None \<Rightarrow> SyntaxError [] (scan_bytes s))
           in (Inl e, dec\<lparr>dec_scan := s, dec_err := Some e\<rparr>))
      | (Exhausted, s) \<Rightarrow>
          if dec_over dec
          then (Inl MaxBytesError, dec\<lparr>dec_scan := s, dec_err := Some MaxBytesError\<rparr>)
          else
            (case scan_step s (CHR '' '') of
               (code, s1) \<Rightarrow>
                 if code = scanEnd then (Inr (length (dec_rest dec)), dec\<lparr>dec_scan := s1\<rparr>)
                 else
                   (let e = (if nonSpace (dec_rest dec) then io_ErrUnexpectedEOF else io_EOF)
                    in (Inl e, dec\<lparr>dec_scan := s1, dec_err := Some e\<rparr>))))"

text \<open>
  \<^verbatim>\<open>dec.Decode(v)\<close>. \<open>unmarshal\<close> stores a scanned value into the destination; what it does
  depends on the type of the destination, which the caller chooses.
\<close>

definition Decode ::
  "(bool \<Rightarrow> string \<Rightarrow> 'v \<Rightarrow> unmarshal_error option \<times> 'v) \<Rightarrow> Decoder \<Rightarrow> 'v
     \<Rightarrow> go_error option \<times> Decoder \<times> 'v" where
  "Decode unmarshal dec v =
     (case dec_err dec of
        Some e \<Rightarrow> (Some e, dec, v)
      | None \<Rightarrow>
          (case readValue dec of
             (Inl e, dec1) \<Rightarrow> (Some e, dec1, v)
           | (Inr n, dec1) \<Rightarrow>
               (case unmarshal (disallowUnknownFields dec1) (take n (dec_rest dec1)) v of
                  (e, v1) \<Rightarrow>
                    (map_option UnmarshalFailure e, dec1\<lparr>dec_rest := drop n (dec_rest dec1)\<rparr>,
                     v1))))"

subsection \<open>Formatting\<close>

function itoa :: "nat \<Rightarrow> string" where
  "itoa n = (if n < 10 then [''0123456789'' ! n] else itoa (n div 10) @ [''0123456789'' ! (n mod 10)])"
  by pat_completeness auto
termination
  by (relation "measure id") auto

declare itoa.simps [simp del]

text \<open>The verb \<^verbatim>\<open>%d\<close> of package fmt.\<close>

definition fmt_d :: "int \<Rightarrow> string" where
  "fmt_d i = (if i < 0 then ''-'' @ itoa (nat (- i)) else itoa (nat i))"

definition HasPrefix :: "string \<Rightarrow> string \<Rightarrow> bool" where
  "HasPrefix s prefix = (length s \<ge> length prefix \<and> take (length prefix) s = prefix)"

definition TrimPrefix :: "string \<Rightarrow> string \<Rightarrow> string" where
  "TrimPrefix s prefix = (if HasPrefix s prefix then drop (length prefix) s else s)"

subsection \<open>ReadJSON\<close>

text \<open>
  What the caller's destination and the standard library add: storing a value into the
  destination \<^verbatim>\<open>data\<close>, storing one into the \<^verbatim>\<open>struct{}\<close> of line 249, and the verb \<^verbatim>\<open>%q\<close>.
\<close>

record 'd json_lib =
  Unmarshal :: "bool \<Rightarrow> string \<Rightarrow> 'd \<Rightarrow> unmarshal_error option \<times> 'd"
  Unmarshal_struct :: "bool \<Rightarrow> string \<Rightarrow> unmarshal_error option"
  fmt_q :: "string \<Rightarrow> string"

text \<open>
  The \<^verbatim>\<open>switch\<close> of lines 225-246 on the error of the first \<^verbatim>\<open>Decode\<close>. The last three
  cases look at \<^verbatim>\<open>err.Error()\<close>; only the two kinds of error named there reach them.
\<close>

definition decode_failure :: "'d json_lib \<Rightarrow> int \<Rightarrow> go_error \<Rightarrow> string" where
  "decode_failure lib maxBytes err =
     (case err of
        SyntaxError msg offset \<Rightarrow>
          ''body contains badly-formed JSON (at character '' @ fmt_d (int offset) @ '')''
      | UnmarshalFailure (UnmarshalTypeError field offset) \<Rightarrow>
          if field \<noteq> [] then ''body contains incorrect JSON type for field '' @ fmt_q lib field
          else ''body contains incorrect JSON type (at character '' @ fmt_d (int offset) @ '')''
      | UnmarshalFailure (InvalidUnmarshalError msg) \<Rightarrow> ''error unmarshalling JSON: '' @ msg
      | io_ErrUnexpectedEOF \<Rightarrow> ''body contains badly-formed JSON''
      | io_EOF \<Rightarrow> ''body must not be empty''
      | _ \<Rightarrow>
          (let Error = (case err of UnmarshalFailure (ErrorString msg) \<Rightarrow> msg
                                  | _ \<Rightarrow> ''http: request body too large'')
           in if HasPrefix Error ''json: unknown field''
              then (let fieldName = TrimPrefix Error ''json: unknown fifeld''
                    in ''body contains unknown key '' @ fieldName)
              else if Error = ''http: request body too large''
              then ''body must not be larger than '' @ fmt_d maxBytes @ '' bytes''
              else Error))"

text \<open>\<^verbatim>\<open>ReadJSON\<close> (lines 205-254): the error and the destination as the call leaves it.\<close>

definition ReadJSON :: "'d json_lib \<Rightarrow> Tools \<Rightarrow> string \<Rightarrow> 'd \<Rightarrow> error \<times> 'd" where
  "ReadJSON lib t body data =
     (let maxBytes = (if MaxJSONSize t \<noteq> 0 then MaxJSONSize t else 1024 * 1024);
          dec0 = NewDecoder (MaxBytesReader body maxBytes);
          dec = (if \<not> AllowUnknownFields t then dec0\<lparr>disallowUnknownFields := True\<rparr> else dec0)
      in case Decode (Unmarshal lib) dec data of
           (Some err, dec1, data1) \<Rightarrow> (Some (decode_failure lib maxBytes err), data1)
         | (None, dec1, data1) \<Rightarrow>
             (case Decode (\<lambda>disallow v u. (Unmarshal_struct lib disallow v, u)) dec1 () of
                (err2, dec2, u) \<Rightarrow>
                  if err2 \<noteq> Some io_EOF
                  then (Some ''body must contain only one JSON value'', data1)
                  else (None, data1)))"

subsection \<open>Example inputs for ReadJSON\<close>

text \<open>
  A destination with one string field \<open>foo\<close>, given by the value of that field, and the
  results of encoding/json on the values that the examples hold.
\<close>

definition dq :: "string \<Rightarrow> string" where
  "dq s = [CHR 0x22] @ s @ [CHR 0x22]"

definition example_Unmarshal :: "bool \<Rightarrow> string \<Rightarrow> string \<Rightarrow> unmarshal_error option \<times> string" where
  "example_Unmarshal disallow v foo =
     (if v = ''{'' @ dq ''foo'' @ '': '' @ dq ''bar'' @ ''}'' then (None, ''bar'')
      else if v = ''{'' @ dq ''fooo'' @ '': '' @ dq ''bar'' @ ''}''
      then (if disallow then (Some (ErrorString (''json: unknown field '' @ dq ''fooo'')), foo)
            else (None, foo))
      else if v = ''{'' @ dq ''foo'' @ '': 1}'' then (Some (UnmarshalTypeError ''foo'' 9), foo)
      else (None, foo))"

definition example_lib :: "string json_lib" where
  "example_lib =
     \<lparr>Unmarshal = example_Unmarshal, Unmarshal_struct = (\<lambda>disallow v. None), fmt_q = dq\<rparr>"

definition json_tools :: "int \<Rightarrow> bool \<Rightarrow> Tools" where
  "json_tools maxJSONSize allowUnknown =
     \<lparr>MaxFileSize = 0, AllowedFileTypes = [], MaxJSONSize = maxJSONSize,
      AllowUnknownFields = allowUnknown\<rparr>"

subsection \<open>Names for the parts of ReadJSON\<close>

text \<open>The limit of lines 206-209 and the decoder of lines 211-216, used to state properties.\<close>

definition maxBytes_of :: "Tools \<Rightarrow> int" where
  "maxBytes_of t = (if MaxJSONSize t \<noteq> 0 then MaxJSONSize t else 1024 * 1024)"

definition body_decoder :: "Tools \<Rightarrow> string \<Rightarrow> Decoder" where
  "body_decoder t body =
     (NewDecoder (MaxBytesReader body (maxBytes_of t)))
       \<lparr>disallowUnknownFields := \<not> AllowUnknownFields t\<rparr>"

section \<open>Properties of the upload\<close>

lemma UploadFiles_receiver:
  "fst (UploadFiles h t r uploadDir rename w) =
     (if MaxFileSize t = 0 then t\<lparr>MaxFileSize := 1024 * 1024 * 1024\<rparr> else t)"
  by (simp add: UploadFiles_def Let_def split: prod.splits option.splits sum.splits)

lemma UploadOneFile_receiver:
  "fst (UploadOneFile h t r uploadDir rename w) =
     (if MaxFileSize t = 0 then t\<lparr>MaxFileSize := 1024 * 1024 * 1024\<rparr> else t)"
proof -
  obtain t1 res w1 where u: "UploadFiles h t r uploadDir
      [if length rename > 0 then rename ! 0 else True] w = (t1, res, w1)"
    by (metis prod_cases3)
  then have "fst (UploadOneFile h t r uploadDir rename w) = t1"
    by (simp add: UploadOneFile_def Let_def split: outcome.splits option.splits list.splits prod.splits)
  with UploadFiles_receiver[of h t r uploadDir "[if length rename > 0 then rename ! 0 else True]" w] u
  show ?thesis by simp
qed

lemma RandomString_25: "\<exists>s w'. RandomString h 25 w = (Return s, w')"
  by (simp add: RandomString_def maxAlloc_def split: prod.splits)

lemma upload_part_cases:
  "upload_part h t d rn fh ups w = (res, w') \<Longrightarrow>
     (\<exists>e. res = Return ([], Some e)) \<or> (\<exists>u. res = Return (ups @ [u], None) \<and> corresponds rn fh u)"
  using RandomString_25[of h w]
  by (auto simp: upload_part_def corresponds_def Let_def
           split: option.splits prod.splits if_splits outcome.splits)

lemma range_fileHeaders_result:
  "range_fileHeaders h t d rn fhs ups w = (res, w') \<Longrightarrow>
     (case res of
        Inl ret \<Rightarrow> \<exists>e. ret = Return ([], Some e)
      | Inr ups' \<Rightarrow> \<exists>us. ups' = ups @ us \<and> list_all2 (corresponds rn) fhs us)"
proof (induction fhs arbitrary: ups w)
  case Nil
  then show ?case by auto
next
  case (Cons fh fhs)
  obtain r1 w1 where p: "upload_part h t d rn fh ups w = (r1, w1)" by force
  from upload_part_cases[OF p] show ?case
  proof
    assume "\<exists>e. r1 = Return ([], Some e)"
    with p Cons.prems show ?thesis by auto
  next
    assume "\<exists>u. r1 = Return (ups @ [u], None) \<and> corresponds rn fh u"
    then obtain u where u: "r1 = Return (ups @ [u], None)" "corresponds rn fh u" by blast
    with p Cons.prems have "range_fileHeaders h t d rn fhs (ups @ [u]) w1 = (res, w')" by simp
    from Cons.IH[OF this] u(2) show ?thesis
      by (auto split: sum.splits)
  qed
qed

lemma range_File_result:
  "range_File h t d rn form ks ups w = (res, w') \<Longrightarrow>
     (case res of
        Inl ret \<Rightarrow> \<exists>e. ret = Return ([], Some e)
      | Inr ups' \<Rightarrow> \<exists>us. ups' = ups @ us \<and>
           list_all2 (corresponds rn)
             (concat (map (\<lambda>k. case form k of None \<Rightarrow> [] | Some fhs \<Rightarrow> fhs) ks)) us)"
proof (induction ks arbitrary: ups w)
  case Nil
  then show ?case by auto
next
  case (Cons k ks)
  show ?case
  proof (cases "form k")
    case None
    with Cons.prems have "range_File h t d rn form ks ups w = (res, w')" by simp
    from Cons.IH[OF this] None show ?thesis by (auto split: sum.splits)
  next
    case (Some fhs)
    obtain r1 w1 where p: "range_fileHeaders h t d rn fhs ups w = (r1, w1)" by force
    show ?thesis
    proof (cases r1)
      case (Inl ret)
      with range_fileHeaders_result[OF p] p Some Cons.prems show ?thesis by auto
    next
      case (Inr ups1)
      with range_fileHeaders_result[OF p] obtain us1
        where us1: "ups1 = ups @ us1" "list_all2 (corresponds rn) fhs us1" by auto
      from Inr p Some Cons.prems have "range_File h t d rn form ks ups1 w1 = (res, w')" by simp
      from Cons.IH[OF this] us1 Some show ?thesis
        by (auto split: sum.splits intro: list_all2_appendI)
    qed
  qed
qed

lemma UploadFiles_result:
  "\<exists>ups e. fst (snd (UploadFiles h t r d rename w)) = Return (ups, e) \<and>
     (case e of Some m \<Rightarrow> ups = []
      | None \<Rightarrow> list_all2 (corresponds (if length rename > 0 then rename ! 0 else True)) (visit_order h r) ups)"
proof -
  let ?rn = "if length rename > 0 then rename ! 0 else True"
  let ?t1 = "if MaxFileSize t = 0 then t\<lparr>MaxFileSize := 1024 * 1024 * 1024\<rparr> else t"
  obtain e1 w1 where c: "CreateDirIfNotExist h d w = (e1, w1)" by force
  show ?thesis
  proof (cases e1)
    case (Some m)
    with c show ?thesis by (simp add: UploadFiles_def Let_def)
  next
    case None
    show ?thesis
    proof (cases "parse_err r (MaxFileSize ?t1)")
      case (Some m)
      with c None show ?thesis by (simp add: UploadFiles_def Let_def ParseMultipartForm_def)
    next
      case pn: None
      obtain res w2 where l: "range_File h ?t1 d ?rn (MultipartForm_File (parts r))
           (range_keys h (File_keys r)) [] w1 = (res, w2)" by force
      from range_File_result[OF l] c None pn l show ?thesis
        by (cases res) (auto simp: UploadFiles_def Let_def ParseMultipartForm_def visit_order_def)
    qed
  qed
qed

lemma range_File_no_parts:
  "(\<forall>k. form k = None) \<Longrightarrow> range_File h t d rn form ks ups w = (Inr ups, w)"
  by (induction ks) auto

lemma UploadFiles_no_parts:
  assumes "parts r = []" and "fst (CreateDirIfNotExist h d w) = None"
    and "parse_err r (if MaxFileSize t = 0 then 1024 * 1024 * 1024 else MaxFileSize t) = None"
  shows "fst (snd (UploadFiles h t r d rename w)) = Return ([], None)"
proof -
  define t1 where "t1 = (if MaxFileSize t = 0 then t\<lparr>MaxFileSize := 1024 * 1024 * 1024\<rparr> else t)"
  obtain w1 where c: "CreateDirIfNotExist h d w = (None, w1)"
    using assms(2) by (cases "CreateDirIfNotExist h d w") auto
  have "MaxFileSize t1 = (if MaxFileSize t = 0 then 1024 * 1024 * 1024 else MaxFileSize t)"
    by (simp add: t1_def)
  then have p: "ParseMultipartForm r (MaxFileSize t1) = Inr (MultipartForm_File (parts r))"
    using assms(3) by (simp add: ParseMultipartForm_def)
  have n: "\<forall>k. MultipartForm_File (parts r) k = None"
    using assms(1) by (simp add: MultipartForm_File_def)
  have rf: "range_File h t1 d rn (MultipartForm_File (parts r)) ks [] w1 = (Inr [], w1)" for rn ks
    by (rule range_File_no_parts[OF n])
  show ?thesis
    unfolding UploadFiles_def Let_def t1_def[symmetric] c
    by (simp add: p rf)
qed

lemma mset_filter_key_split:
  "k \<notin> set ks \<Longrightarrow>
     mset (filter (\<lambda>p. fst p = k) ps) + mset (filter (\<lambda>p. fst p \<in> set ks) ps)
        = mset (filter (\<lambda>p. fst p = k \<or> fst p \<in> set ks) ps)"
  by (induction ps) auto

lemma mset_concat_filter_keys:
  "distinct ks \<Longrightarrow>
     mset (concat (map (\<lambda>k. filter (\<lambda>p. fst p = k) ps) ks)) = mset (filter (\<lambda>p. fst p \<in> set ks) ps)"
proof (induction ks)
  case Nil
  then show ?case by simp
next
  case (Cons k ks)
  then have "k \<notin> set ks" and "distinct ks" by simp_all
  with Cons.IH mset_filter_key_split[of k ks ps] show ?case by simp
qed

lemma visit_order_concat:
  "set ks \<subseteq> set (map fst ps) \<Longrightarrow>
   concat (map (\<lambda>k. case MultipartForm_File ps k of None \<Rightarrow> [] | Some fhs \<Rightarrow> fhs) ks)
     = map snd (concat (map (\<lambda>k. filter (\<lambda>p. fst p = k) ps) ks))"
  by (induction ks) (simp_all add: MultipartForm_File_def)

lemma mset_visit_order:
  assumes "mset (range_keys h (File_keys r)) = mset (File_keys r)"
  shows "mset (visit_order h r) = mset (map snd (parts r))"
proof -
  let ?ks = "range_keys h (File_keys r)"
  have "set ?ks = set (File_keys r)"
    using assms by (rule mset_eq_setD)
  then have s: "set ?ks = set (map fst (parts r))"
    by (simp add: File_keys_def)
  have "distinct (File_keys r)" by (simp add: File_keys_def)
  then have d: "distinct ?ks"
    using assms mset_eq_imp_distinct_iff by blast
  have v: "visit_order h r = map snd (concat (map (\<lambda>k. filter (\<lambda>p. fst p = k) (parts r)) ?ks))"
    unfolding visit_order_def using s by (intro visit_order_concat) simp
  have "\<forall>p \<in> set (parts r). fst p \<in> set ?ks"
    using s by simp
  then have f: "filter (\<lambda>p. fst p \<in> set ?ks) (parts r) = parts r"
    by (simp add: filter_id_conv)
  have "mset (concat (map (\<lambda>k. filter (\<lambda>p. fst p = k) (parts r)) ?ks)) = mset (parts r)"
    using mset_concat_filter_keys[OF d, of "parts r"] f by simp
  then have "image_mset snd (mset (concat (map (\<lambda>k. filter (\<lambda>p. fst p = k) (parts r)) ?ks)))
      = image_mset snd (mset (parts r))" by simp
  then show ?thesis unfolding v by (simp only: mset_map)
qed

lemma remdups_replicate_Suc: "remdups (replicate (Suc n) k) = [k]"
  by (induction n) simp_all

lemma visit_order_single_field:
  assumes "mset (range_keys h (File_keys r)) = mset (File_keys r)"
    and "\<forall>p \<in> set (parts r). fst p = k"
  shows "visit_order h r = map snd (parts r)"
proof (cases "parts r")
  case Nil
  with assms(1) show ?thesis by (simp add: visit_order_def File_keys_def)
next
  case (Cons p ps)
  have "map fst (parts r) = replicate (length (parts r)) k"
    using assms(2) by (simp add: map_replicate_const[symmetric] cong: map_cong)
  then have "File_keys r = [k]"
    using Cons remdups_replicate_Suc[of "length ps" k] by (simp add: File_keys_def)
  with assms(1) have "range_keys h (File_keys r) = [k]" by simp
  moreover have "filter (\<lambda>p. fst p = k) (parts r) = parts r"
    using assms(2) by (simp add: filter_id_conv)
  moreover have "k \<in> set (map fst (parts r))"
    using Cons assms(2) by auto
  ultimately show ?thesis
    by (simp add: visit_order_def MultipartForm_File_def)
qed

lemmas ex_defs = example_host_def example_world_def file_part_def example_request_def
  example_tools_def sniff_example_def png_signature_def ascii_EqualFold_def ascii_lower_def

lemmas up_defs = UploadFiles_def UploadOneFile_def CreateDirIfNotExist_def ParseMultipartForm_def
  MultipartForm_File_def File_keys_def upload_part_def Read_buff_def allowed_def Let_def

subsection \<open>C1: records of earlier parts when a later part fails\<close>

text \<open>
  C1 says that when some parts have been written and a later part fails, \<^verbatim>\<open>UploadFiles\<close>
  returns the records of the earlier parts with the error. The function literal returns
  \<^verbatim>\<open>nil\<close> for the list on every failure and the loop stores that in \<^verbatim>\<open>uploadedFiles\<close>
  before line 144 returns it: with a PNG part followed by a text part and only
  \<^verbatim>\<open>image/png\<close> allowed, the first file is on disk and the returned list is empty.
\<close>

theorem UploadFiles_error_clears_list_example:
  "UploadFiles (example_host id) (example_tools [''image/png''])
         (example_request [(''file'', file_part ''a.png'' (png_signature @ ''data'')),
                           (''file'', file_part ''b.txt'' ''hello'')])
         ''./uploads'' [False] example_world
   = (\<lparr>MaxFileSize = 1073741824, AllowedFileTypes = [''image/png''], MaxJSONSize = 0,
        AllowUnknownFields = False\<rparr>,
      Return ([], Some ''the uploaded file type is not permitted''),
      \<lparr>rand_calls = 0, dirs = [''./uploads''],
        disk = [(''./uploads'', ''a.png'', png_signature @ ''data'')]\<rparr>)"
  by (simp add: ex_defs up_defs)

subsection \<open>C2: the single-file form\<close>

text \<open>
  C2: when the directory is there, the body parses and holds no file part,
  \<^verbatim>\<open>UploadOneFile\<close> stops with the panic of \<^verbatim>\<open>files[0]\<close> on an empty list, not with an
  error value; when \<^verbatim>\<open>UploadFiles\<close> succeeds with at least one record, it returns the
  first of them.
\<close>

theorem UploadOneFile_first_or_panic:
  "(parts r = [] \<and> fst (CreateDirIfNotExist h d w) = None \<and>
    parse_err r (if MaxFileSize t = 0 then 1024 * 1024 * 1024 else MaxFileSize t) = None
      \<longrightarrow> fst (snd (UploadOneFile h t r d rename w)) =
            Panic ''runtime error: index out of range [0] with length 0'')
   \<and> (fst (snd (UploadFiles h t r d [if length rename > 0 then rename ! 0 else True] w)) =
          Return (f # fs, None)
      \<longrightarrow> fst (snd (UploadOneFile h t r d rename w)) = Return (Some f, None))"
proof (intro conjI impI)
  assume a: "parts r = [] \<and> fst (CreateDirIfNotExist h d w) = None \<and>
    parse_err r (if MaxFileSize t = 0 then 1024 * 1024 * 1024 else MaxFileSize t) = None"
  then have "fst (snd (UploadFiles h t r d [if length rename > 0 then rename ! 0 else True] w)) =
      Return ([], None)"
    by (intro UploadFiles_no_parts) simp_all
  then show "fst (snd (UploadOneFile h t r d rename w)) =
            Panic ''runtime error: index out of range [0] with length 0''"
    by (auto simp: UploadOneFile_def Let_def split: prod.splits)
next
  assume "fst (snd (UploadFiles h t r d [if length rename > 0 then rename ! 0 else True] w)) =
          Return (f # fs, None)"
  then show "fst (snd (UploadOneFile h t r d rename w)) = Return (Some f, None)"
    by (auto simp: UploadOneFile_def Let_def split: prod.splits)
qed

theorem UploadOneFile_first_or_panic_witness:
  "fst (snd (UploadOneFile (example_host id) (example_tools []) (example_request [])
               ''./uploads'' [] example_world)) =
     Panic ''runtime error: index out of range [0] with length 0''
   \<and> fst (snd (UploadOneFile (example_host id) (example_tools [''image/png''])
               (example_request [(''file'', file_part ''a.png'' (png_signature @ ''data''))])
               ''./uploads'' [False] example_world)) =
     Return (Some \<lparr>NewFileName = ''a.png'', OriginalFileName = ''a.png'', FileSize = 12\<rparr>, None)"
proof -
  have 1: "parts (example_request []) = [] \<and>
      fst (CreateDirIfNotExist (example_host id) ''./uploads'' example_world) = None \<and>
      parse_err (example_request [])
        (if MaxFileSize (example_tools []) = 0 then 1024 * 1024 * 1024
         else MaxFileSize (example_tools [])) = None"
    by (simp add: ex_defs CreateDirIfNotExist_def)
  have 2: "fst (snd (UploadFiles (example_host id) (example_tools [''image/png''])
               (example_request [(''file'', file_part ''a.png'' (png_signature @ ''data''))])
               ''./uploads'' [if length [False] > 0 then [False] ! 0 else True] example_world)) =
     Return (\<lparr>NewFileName = ''a.png'', OriginalFileName = ''a.png'', FileSize = 12\<rparr> # [], None)"
    by (simp add: ex_defs up_defs)
  show ?thesis
    using UploadOneFile_first_or_panic[THEN conjunct1, rule_format, OF 1]
      UploadOneFile_first_or_panic[THEN conjunct2, rule_format, OF 2]
    by simp
qed

subsection \<open>C4: the order of the records is not the order of the body\<close>

text \<open>
  C4 says that the records are in the order in which the parts stand in the body. The
  loop ranges over the map from field names to headers, so the parts of one field stay
  together: for a body with parts 1 and 3 in field \<open>b\<close> and part 2 in field \<open>a\<close>, the
  records come as 2, 1, 3 or as 1, 3, 2, whichever field the \<^verbatim>\<open>range\<close> takes first.
\<close>

theorem UploadFiles_order_counterexample:
  "map (Filename \<circ> snd)
     (parts (example_request [(''b'', file_part ''1.txt'' ''one''),
        (''a'', file_part ''2.txt'' ''two''), (''b'', file_part ''3.txt'' ''three'')])) =
     [''1.txt'', ''2.txt'', ''3.txt'']
   \<and> fst (snd (UploadFiles (example_host id) (example_tools [])
         (example_request [(''b'', file_part ''1.txt'' ''one''),
            (''a'', file_part ''2.txt'' ''two''), (''b'', file_part ''3.txt'' ''three'')])
         ''./uploads'' [False] example_world)) =
     Return ([\<lparr>NewFileName = ''2.txt'', OriginalFileName = ''2.txt'', FileSize = 3\<rparr>,
              \<lparr>NewFileName = ''1.txt'', OriginalFileName = ''1.txt'', FileSize = 3\<rparr>,
              \<lparr>NewFileName = ''3.txt'', OriginalFileName = ''3.txt'', FileSize = 5\<rparr>], None)
   \<and> fst (snd (UploadFiles (example_host rev) (example_tools [])
         (example_request [(''b'', file_part ''1.txt'' ''one''),
            (''a'', file_part ''2.txt'' ''two''), (''b'', file_part ''3.txt'' ''three'')])
         ''./uploads'' [False] example_world)) =
     Return ([\<lparr>NewFileName = ''1.txt'', OriginalFileName = ''1.txt'', FileSize = 3\<rparr>,
              \<lparr>NewFileName = ''3.txt'', OriginalFileName = ''3.txt'', FileSize = 5\<rparr>,
              \<lparr>NewFileName = ''2.txt'', OriginalFileName = ''2.txt'', FileSize = 3\<rparr>], None)"
  by (simp add: ex_defs up_defs)

subsection \<open>C4: one record for each part, and their order\<close>

text \<open>
  C4, as amended: when \<^verbatim>\<open>UploadFiles\<close> returns without error, its records describe, one
  for one, the file headers in the order the loops visit them; when the \<^verbatim>\<open>range\<close> visits
  every key of the map once, these are the file parts of the body, each exactly once,
  grouped by form field and in the order of the body inside a field; when all parts
  share one field name this is the order of the body.
\<close>

theorem UploadFiles_records_in_visit_order:
  assumes "fst (snd (UploadFiles h t r d rename w)) = Return (ups, e)"
    and "mset (range_keys h (File_keys r)) = mset (File_keys r)"
  shows "(e = None \<longrightarrow>
            list_all2 (corresponds (if length rename > 0 then rename ! 0 else True))
              (visit_order h r) ups)
       \<and> mset (visit_order h r) = mset (map snd (parts r))
       \<and> ((\<forall>p \<in> set (parts r). fst p = k) \<longrightarrow> visit_order h r = map snd (parts r))"
proof (intro conjI impI)
  assume "e = None"
  with assms(1) UploadFiles_result[of h t r d rename w]
  show "list_all2 (corresponds (if length rename > 0 then rename ! 0 else True))
              (visit_order h r) ups"
    by auto
next
  show "mset (visit_order h r) = mset (map snd (parts r))"
    using assms(2) by (rule mset_visit_order)
next
  assume "\<forall>p \<in> set (parts r). fst p = k"
  with assms(2) show "visit_order h r = map snd (parts r)"
    by (rule visit_order_single_field)
qed

theorem UploadFiles_records_in_visit_order_witness:
  "list_all2 (corresponds False)
     [file_part ''1.txt'' ''one'', file_part ''2.txt'' ''two'']
     [\<lparr>NewFileName = ''1.txt'', OriginalFileName = ''1.txt'', FileSize = 3\<rparr>,
      \<lparr>NewFileName = ''2.txt'', OriginalFileName = ''2.txt'', FileSize = 3\<rparr>]
   \<and> visit_order (example_host id)
        (example_request [(''f'', file_part ''1.txt'' ''one''), (''f'', file_part ''2.txt'' ''two'')])
      = [file_part ''1.txt'' ''one'', file_part ''2.txt'' ''two'']"
proof -
  let ?r = "example_request [(''f'', file_part ''1.txt'' ''one''), (''f'', file_part ''2.txt'' ''two'')]"
  have 1: "fst (snd (UploadFiles (example_host id) (example_tools []) ?r ''./uploads'' [False]
        example_world)) =
      Return ([\<lparr>NewFileName = ''1.txt'', OriginalFileName = ''1.txt'', FileSize = 3\<rparr>,
      \<lparr>NewFileName = ''2.txt'', OriginalFileName = ''2.txt'', FileSize = 3\<rparr>], None)"
    by (simp add: ex_defs up_defs)
  have 2: "mset (range_keys (example_host id) (File_keys ?r)) = mset (File_keys ?r)"
    by (simp add: example_host_def)
  have 3: "\<forall>p \<in> set (parts ?r). fst p = ''f''"
    by (simp add: example_request_def)
  note T = UploadFiles_records_in_visit_order[OF 1 2, of "''f''"]
  from T 3 have C: "visit_order (example_host id) ?r = map snd (parts ?r)" by blast
  from T have A: "list_all2 (corresponds False) (visit_order (example_host id) ?r)
      [\<lparr>NewFileName = ''1.txt'', OriginalFileName = ''1.txt'', FileSize = 3\<rparr>,
       \<lparr>NewFileName = ''2.txt'', OriginalFileName = ''2.txt'', FileSize = 3\<rparr>]" by simp
  have P: "map snd (parts ?r) = [file_part ''1.txt'' ''one'', file_part ''2.txt'' ''two'']"
    by (simp add: example_request_def)
  from A C P show ?thesis by (simp only:)
qed

subsection \<open>C5: what is sniffed\<close>

text \<open>
  C5 says that a part shorter than 512 bytes, an empty one included, is classified from
  the bytes it has. An empty part is not classified: its read reports \<^verbatim>\<open>EOF\<close> and the
  upload fails. For a five-byte part the sniffer receives 512 bytes, the last 507 of
  them zero.
\<close>

theorem upload_part_empty_counterexample:
  "fst (snd (UploadFiles (example_host id) (example_tools [])
       (example_request [(''file'', file_part ''empty.txt'' [])])
       ''./uploads'' [False] example_world)) = Return ([], Some ''EOF'')
   \<and> fst (Read_buff (file_part ''b.txt'' ''hello'')) = ''hello'' @ replicate 507 (CHR 0x00)"
  by (simp add: ex_defs up_defs)

text \<open>
  C5, as amended: for a part that opens and reads without an I/O error, an empty part
  fails with \<^verbatim>\<open>EOF\<close>; for a non-empty part the type checked against the allow-list is
  that of the 512-byte buffer, which holds the first 512 bytes of the part, or the whole
  part followed by zero bytes when it is shorter.
\<close>

theorem upload_part_sniffs_buffer:
  assumes "Open_err fh = None" and "Read_err fh = None"
  shows "(content fh = [] \<longrightarrow>
            upload_part h t d rn fh ups w = (Return ([], Some ''EOF''), w))
       \<and> (content fh \<noteq> [] \<and>
          \<not> allowed h t (DetectContentType h
               (take 512 (content fh) @ replicate (512 - length (content fh)) (CHR 0x00)))
          \<longrightarrow> upload_part h t d rn fh ups w =
                (Return ([], Some ''the uploaded file type is not permitted''), w))
       \<and> (content fh \<noteq> [] \<and>
          allowed h t (DetectContentType h
               (take 512 (content fh) @ replicate (512 - length (content fh)) (CHR 0x00))) \<and>
          Seek_err fh = None \<and> Create_err fh = None \<and> Copy_fail fh = None
          \<longrightarrow> (\<exists>u. fst (upload_part h t d rn fh ups w) = Return (ups @ [u], None) \<and>
                   corresponds rn fh u))
       \<and> length (take 512 (content fh) @ replicate (512 - length (content fh)) (CHR 0x00)) = 512"
  using assms RandomString_25[of h w]
  by (auto simp: upload_part_def Read_buff_def corresponds_def Let_def split: prod.splits outcome.splits)

theorem upload_part_sniffs_buffer_witness:
  "upload_part (example_host id) (example_tools [''image/png'']) ''./uploads'' False
      (file_part ''empty.png'' []) [] example_world
     = (Return ([], Some ''EOF''), example_world)
   \<and> upload_part (example_host id) (example_tools [''image/png'']) ''./uploads'' False
      (file_part ''b.txt'' ''hello'') [] example_world
     = (Return ([], Some ''the uploaded file type is not permitted''), example_world)
   \<and> (\<exists>u. fst (upload_part (example_host id) (example_tools [''IMAGE/PNG'']) ''./uploads'' False
        (file_part ''a.png'' (png_signature @ ''data'')) [] example_world) = Return ([] @ [u], None)
          \<and> corresponds False (file_part ''a.png'' (png_signature @ ''data'')) u)"
proof -
  let ?h = "example_host id"
  have o: "Open_err (file_part n c) = None" "Read_err (file_part n c) = None" for n c
    by (simp_all add: file_part_def)
  note e = upload_part_sniffs_buffer[OF o, of "''empty.png''" "[]" ?h "example_tools [''image/png'']"
      "''./uploads''" False "[]" example_world]
  note b = upload_part_sniffs_buffer[OF o, of "''b.txt''" "''hello''" ?h "example_tools [''image/png'']"
      "''./uploads''" False "[]" example_world]
  note a = upload_part_sniffs_buffer[OF o, of "''a.png''" "png_signature @ ''data''" ?h
      "example_tools [''IMAGE/PNG'']" "''./uploads''" False "[]" example_world]
  have 1: "content (file_part ''empty.png'' []) = []"
    by (simp add: file_part_def)
  have 2: "content (file_part ''b.txt'' ''hello'') \<noteq> [] \<and>
      \<not> allowed ?h (example_tools [''image/png'']) (DetectContentType ?h
        (take 512 (content (file_part ''b.txt'' ''hello'')) @
         replicate (512 - length (content (file_part ''b.txt'' ''hello''))) (CHR 0x00)))"
    by (simp add: ex_defs allowed_def)
  have 3: "content (file_part ''a.png'' (png_signature @ ''data'')) \<noteq> [] \<and>
      allowed ?h (example_tools [''IMAGE/PNG'']) (DetectContentType ?h
        (take 512 (content (file_part ''a.png'' (png_signature @ ''data''))) @
         replicate (512 - length (content (file_part ''a.png'' (png_signature @ ''data''))))
           (CHR 0x00))) \<and>
      Seek_err (file_part ''a.png'' (png_signature @ ''data'')) = None \<and>
      Create_err (file_part ''a.png'' (png_signature @ ''data'')) = None \<and>
      Copy_fail (file_part ''a.png'' (png_signature @ ''data'')) = None"
    by (simp add: ex_defs allowed_def)
  from e 1 have "upload_part ?h (example_tools [''image/png'']) ''./uploads'' False
      (file_part ''empty.png'' []) [] example_world = (Return ([], Some ''EOF''), example_world)"
    by blast
  moreover from b 2 have "upload_part ?h (example_tools [''image/png'']) ''./uploads'' False
      (file_part ''b.txt'' ''hello'') [] example_world
     = (Return ([], Some ''the uploaded file type is not permitted''), example_world)"
    by blast
  moreover from a 3 have "\<exists>u. fst (upload_part ?h (example_tools [''IMAGE/PNG'']) ''./uploads'' False
        (file_part ''a.png'' (png_signature @ ''data'')) [] example_world) = Return ([] @ [u], None)
          \<and> corresponds False (file_part ''a.png'' (png_signature @ ''data'')) u"
    by blast
  ultimately show ?thesis by blast
qed

subsection \<open>C10: what an upload changes in the receiver\<close>

text \<open>
  C10: an upload leaves \<^verbatim>\<open>AllowedFileTypes\<close>, \<^verbatim>\<open>MaxJSONSize\<close> and \<^verbatim>\<open>AllowUnknownFields\<close> as
  they were, and \<^verbatim>\<open>UploadOneFile\<close> leaves the receiver as \<^verbatim>\<open>UploadFiles\<close> does. A
  \<^verbatim>\<open>MaxFileSize\<close> of 0 is replaced by 1 GiB, and stays: a later upload with that receiver
  finds the stored value and changes nothing. Any other \<^verbatim>\<open>MaxFileSize\<close> is kept.
\<close>

theorem upload_changes_only_MaxFileSize:
  "AllowedFileTypes (fst (UploadFiles h t r d rename w)) = AllowedFileTypes t
   \<and> MaxJSONSize (fst (UploadFiles h t r d rename w)) = MaxJSONSize t
   \<and> AllowUnknownFields (fst (UploadFiles h t r d rename w)) = AllowUnknownFields t
   \<and> fst (UploadOneFile h t r d rename w) = fst (UploadFiles h t r d rename w)
   \<and> (MaxFileSize t = 0 \<longrightarrow>
        MaxFileSize (fst (UploadFiles h t r d rename w)) = 1024 * 1024 * 1024 \<and>
        fst (UploadFiles h' (fst (UploadFiles h t r d rename w)) r' d' rename' w')
          = fst (UploadFiles h t r d rename w))
   \<and> (MaxFileSize t \<noteq> 0 \<longrightarrow> fst (UploadFiles h t r d rename w) = t)"
  by (simp add: UploadFiles_receiver UploadOneFile_receiver)

theorem upload_changes_only_MaxFileSize_witness:
  "fst (UploadFiles (example_host id) (example_tools [''image/png'']) (example_request [])
          ''./uploads'' [] example_world)
     = \<lparr>MaxFileSize = 1073741824, AllowedFileTypes = [''image/png''], MaxJSONSize = 0,
        AllowUnknownFields = False\<rparr>
   \<and> fst (UploadFiles (example_host id)
          (fst (UploadFiles (example_host id) (example_tools [''image/png'']) (example_request [])
             ''./uploads'' [] example_world))
          (example_request []) ''./uploads'' [] example_world)
     = \<lparr>MaxFileSize = 1073741824, AllowedFileTypes = [''image/png''], MaxJSONSize = 0,
        AllowUnknownFields = False\<rparr>
   \<and> fst (UploadFiles (example_host id)
          \<lparr>MaxFileSize = 5, AllowedFileTypes = [], MaxJSONSize = 7, AllowUnknownFields = True\<rparr>
          (example_request []) ''./uploads'' [] example_world)
     = \<lparr>MaxFileSize = 5, AllowedFileTypes = [], MaxJSONSize = 7, AllowUnknownFields = True\<rparr>"
proof -
  let ?t = "example_tools [''image/png'']"
  let ?u = "\<lparr>MaxFileSize = 5, AllowedFileTypes = [], MaxJSONSize = 7, AllowUnknownFields = True\<rparr>"
  let ?t' = "fst (UploadFiles (example_host id) ?t (example_request []) ''./uploads'' [] example_world)"
  have z: "MaxFileSize ?t = 0" by (simp add: example_tools_def)
  have n: "MaxFileSize ?u \<noteq> 0" by simp
  note a = upload_changes_only_MaxFileSize[of "example_host id" ?t "example_request []"
      "''./uploads''" "[]" example_world "example_host id" "example_request []" "''./uploads''" "[]"
      example_world]
  note b = upload_changes_only_MaxFileSize[of "example_host id" ?u "example_request []"
      "''./uploads''" "[]" example_world]
  have t': "?t' = \<lparr>MaxFileSize = 1073741824, AllowedFileTypes = [''image/png''], MaxJSONSize = 0,
        AllowUnknownFields = False\<rparr>"
    using a z by (intro Tools.equality) (simp_all add: example_tools_def)
  from a z have "fst (UploadFiles (example_host id) ?t' (example_request []) ''./uploads'' []
      example_world) = ?t'" by blast
  moreover from b n have "fst (UploadFiles (example_host id) ?u (example_request []) ''./uploads'' []
      example_world) = ?u" by blast
  ultimately show ?thesis using t' by simp
qed

section \<open>Properties of RandomString\<close>

lemma randomStringSource_length: "length randomStringSource = 64"
  by (simp add: randomStringSource_def)

lemma randomStringSource_distinct: "distinct randomStringSource"
  by (simp add: randomStringSource_def)

lemma draw_in_alphabet:
  "randomStringSource ! unat ((x :: 64 word) mod of_nat (length randomStringSource))
     \<in> set randomStringSource"
proof -
  have "unat (x mod 64) < 64"
    by (simp add: unat_mod_distrib)
  then show ?thesis
    by (simp add: randomStringSource_length nth_mem)
qed

lemma RandomString_loop_ok:
  "\<forall>i < k. \<exists>x. rand_Prime h (c + i) = Inr x \<Longrightarrow>
     \<exists>s'. RandomString_loop h k s c = (s', c + k) \<and> length s' = length s + k \<and>
          set s' \<subseteq> set s \<union> set randomStringSource"
proof (induction k arbitrary: s c)
  case 0
  then show ?case by simp
next
  case (Suc k)
  from Suc.prems have "\<exists>x. rand_Prime h (c + 0) = Inr x" by blast
  then obtain x where x: "rand_Prime h c = Inr x" by auto
  have "\<forall>i<k. \<exists>x. rand_Prime h (Suc c + i) = Inr x"
  proof (intro allI impI)
    fix i assume "i < k"
    then have "Suc i < Suc k" by simp
    with Suc.prems have "\<exists>x. rand_Prime h (c + Suc i) = Inr x" by blast
    then show "\<exists>x. rand_Prime h (Suc c + i) = Inr x" by simp
  qed
  from Suc.IH[OF this, of "s @ [randomStringSource ! unat (x mod of_nat (length randomStringSource))]"]
    x draw_in_alphabet[of x]
  show ?case by (auto simp: Let_def)
qed

lemma RandomString_loop_fail:
  "i < k \<Longrightarrow> rand_Prime h (c + i) = Inl e \<Longrightarrow>
     fst (RandomString_loop h k s c) = ''RandomString Error''"
proof (induction k arbitrary: s c i)
  case 0
  then show ?case by simp
next
  case (Suc k)
  show ?case
  proof (cases "rand_Prime h c")
    case (Inl a)
    then show ?thesis by simp
  next
    case (Inr x)
    with Suc.prems have "i \<noteq> 0" by (cases i) auto
    then obtain j where j: "i = Suc j" by (cases i) auto
    with Suc.prems have "j < k" "rand_Prime h (Suc c + j) = Inl e" by simp_all
    from Suc.IH[OF this] Inr show ?thesis by (simp add: Let_def)
  qed
qed

lemma RandomString_loop_drawn:
  "\<forall>i < k. \<exists>x. rand_Prime h (c + i) = Inr x \<Longrightarrow>
     \<exists>s'. RandomString_loop h k s c = (s', c + k) \<and> length s' = length s + k \<and>
          take (length s) s' = s \<and>
          (\<forall>i < k. \<forall>x. rand_Prime h (c + i) = Inr x \<longrightarrow>
             s' ! (length s + i) =
               randomStringSource ! unat (x mod of_nat (length randomStringSource)))"
proof (induction k arbitrary: s c)
  case 0
  then show ?case by simp
next
  case (Suc k)
  from Suc.prems have "\<exists>x. rand_Prime h (c + 0) = Inr x" by blast
  then obtain x where x: "rand_Prime h c = Inr x" by auto
  let ?ch = "randomStringSource ! unat (x mod of_nat (length randomStringSource))"
  have "\<forall>i<k. \<exists>x. rand_Prime h (Suc c + i) = Inr x"
  proof (intro allI impI)
    fix i assume "i < k"
    then have "Suc i < Suc k" by simp
    with Suc.prems have "\<exists>x. rand_Prime h (c + Suc i) = Inr x" by blast
    then show "\<exists>x. rand_Prime h (Suc c + i) = Inr x" by simp
  qed
  from Suc.IH[OF this, of "s @ [?ch]"] obtain s' where s':
    "RandomString_loop h k (s @ [?ch]) (Suc c) = (s', Suc c + k)"
    "length s' = length (s @ [?ch]) + k"
    "take (length (s @ [?ch])) s' = s @ [?ch]"
    "\<forall>i < k. \<forall>y. rand_Prime h (Suc c + i) = Inr y \<longrightarrow>
       s' ! (length (s @ [?ch]) + i) =
         randomStringSource ! unat (y mod of_nat (length randomStringSource))"
    by blast
  have run: "RandomString_loop h (Suc k) s c = (s', c + Suc k)"
    using x s'(1) by (simp add: Let_def)
  have len: "length s' = length s + Suc k"
    using s'(2) by simp
  have "take (length s) (take (length (s @ [?ch])) s') = take (length s) (s @ [?ch])"
    by (simp only: s'(3))
  then have tk: "take (length s) s' = s" by simp
  have "s' ! length s = take (length (s @ [?ch])) s' ! length s" by simp
  also have "\<dots> = ?ch" by (simp only: s'(3)) simp
  finally have first: "s' ! length s = ?ch" .
  have nth: "\<forall>i < Suc k. \<forall>y. rand_Prime h (c + i) = Inr y \<longrightarrow>
       s' ! (length s + i) = randomStringSource ! unat (y mod of_nat (length randomStringSource))"
  proof (intro allI impI)
    fix i y assume i: "i < Suc k" and y: "rand_Prime h (c + i) = Inr y"
    show "s' ! (length s + i) = randomStringSource ! unat (y mod of_nat (length randomStringSource))"
    proof (cases i)
      case 0
      with y x have "y = x" by simp
      with 0 first show ?thesis by simp
    next
      case (Suc j)
      with i y have "j < k" "rand_Prime h (Suc c + j) = Inr y" by simp_all
      with s'(4) have "s' ! (length (s @ [?ch]) + j) =
         randomStringSource ! unat (y mod of_nat (length randomStringSource))" by blast
      with Suc show ?thesis by simp
    qed
  qed
  from run len tk nth show ?case by blast
qed

subsection \<open>C3: length and alphabet of a random string\<close>

text \<open>
  C3, as amended: for \<open>0 \<le> n\<close> with \<open>4 * n \<le> maxAlloc\<close>, the lengths that
  \<^verbatim>\<open>make([]rune, n)\<close> accepts, when every draw from the random source succeeds,
  \<^verbatim>\<open>RandomString(n)\<close> returns a string of exactly \<open>n\<close> characters, each drawn from the
  alphabet of 64 distinct characters: the character at position \<open>i\<close> is the one that the
  alphabet holds at the index \<open>p mod 64\<close>, \<open>p\<close> being the prime of the \<open>i\<close>-th draw. When a
  draw fails it returns the text \<^verbatim>\<open>RandomString Error\<close>. For any other \<open>n\<close> it panics.
\<close>

theorem RandomString_length_alphabet:
  "(0 \<le> n \<and> 4 * n \<le> int maxAlloc \<and>
      (\<forall>i < nat n. \<exists>x. rand_Prime h (rand_calls w + i) = Inr x) \<longrightarrow>
        (\<exists>s. fst (RandomString h n w) = Return s \<and> int (length s) = n \<and>
             set s \<subseteq> set randomStringSource \<and>
             (\<forall>i < nat n. \<forall>x. rand_Prime h (rand_calls w + i) = Inr x \<longrightarrow>
                s ! i = randomStringSource ! unat (x mod 64))))
   \<and> (0 \<le> n \<and> 4 * n \<le> int maxAlloc \<and>
      (\<exists>i < nat n. \<exists>e. rand_Prime h (rand_calls w + i) = Inl e) \<longrightarrow>
        fst (RandomString h n w) = Return ''RandomString Error'')
   \<and> (n < 0 \<or> int maxAlloc < 4 * n \<longrightarrow>
        fst (RandomString h n w) = Panic ''runtime error: makeslice: len out of range'')
   \<and> length randomStringSource = 64 \<and> distinct randomStringSource \<and> maxAlloc = 2 ^ 48"
proof (intro conjI impI)
  assume a: "0 \<le> n \<and> 4 * n \<le> int maxAlloc \<and>
      (\<forall>i < nat n. \<exists>x. rand_Prime h (rand_calls w + i) = Inr x)"
  then have ok: "\<forall>i < nat n. \<exists>x. rand_Prime h (rand_calls w + i) = Inr x" by blast
  from a have run: "\<not> (n < 0 \<or> int maxAlloc < 4 * n)" by linarith
  from RandomString_loop_ok[OF ok, of "[]"] obtain s
    where s: "RandomString_loop h (nat n) [] (rand_calls w) = (s, rand_calls w + nat n)"
      "length s = nat n" "set s \<subseteq> set randomStringSource" by auto
  from RandomString_loop_drawn[OF ok, of "[]"] s(1)
  have d: "\<forall>i < nat n. \<forall>x. rand_Prime h (rand_calls w + i) = Inr x \<longrightarrow>
             s ! i = randomStringSource ! unat (x mod 64)"
    by (auto simp: randomStringSource_length)
  have "fst (RandomString h n w) = Return s"
    using run s(1) by (simp add: RandomString_def)
  moreover have "int (length s) = n" using s(2) a by simp
  ultimately show "\<exists>s. fst (RandomString h n w) = Return s \<and> int (length s) = n \<and>
             set s \<subseteq> set randomStringSource \<and>
             (\<forall>i < nat n. \<forall>x. rand_Prime h (rand_calls w + i) = Inr x \<longrightarrow>
                s ! i = randomStringSource ! unat (x mod 64))"
    using s(3) d by blast
next
  assume a: "0 \<le> n \<and> 4 * n \<le> int maxAlloc \<and>
      (\<exists>i < nat n. \<exists>e. rand_Prime h (rand_calls w + i) = Inl e)"
  then obtain i e where "i < nat n" "rand_Prime h (rand_calls w + i) = Inl e" by blast
  from RandomString_loop_fail[OF this, of "[]"]
  have "fst (RandomString_loop h (nat n) [] (rand_calls w)) = ''RandomString Error''" .
  moreover from a have "\<not> (n < 0 \<or> int maxAlloc < 4 * n)" by linarith
  ultimately show "fst (RandomString h n w) = Return ''RandomString Error''"
    by (cases "RandomString_loop h (nat n) [] (rand_calls w)") (simp add: RandomString_def)
next
  assume "n < 0 \<or> int maxAlloc < 4 * n"
  then show "fst (RandomString h n w) = Panic ''runtime error: makeslice: len out of range''"
    by (simp add: RandomString_def)
next
  show "maxAlloc = 2 ^ 48" by (simp add: maxAlloc_def)
qed (rule randomStringSource_length randomStringSource_distinct)+

text \<open>
  The draws are primes of 64 bits, hence odd, and the index is the draw modulo 64: only
  the 32 characters at the odd positions of the alphabet can be chosen.
\<close>

lemma odd_index_chars:
  "map (\<lambda>j. randomStringSource ! (2 * j + 1)) [0..<32] = ''bdfhjlnprtvxzBDFHJLNPRTVXZ13579+''"
  by code_simp

lemma odd_draw_char:
  assumes "odd (x :: 64 word)"
  shows "randomStringSource ! unat (x mod of_nat (length randomStringSource))
           \<in> set ''bdfhjlnprtvxzBDFHJLNPRTVXZ13579+''"
proof -
  let ?i = "unat (x mod 64)"
  have lt: "?i < 64" by (simp add: unat_mod_distrib)
  have "?i = unat x mod 64" by (simp add: unat_mod_distrib)
  moreover have "odd (unat x)"
  proof -
    have "bit (unat x) 0 = bit x 0" by (simp add: bit_unsigned_iff)
    with assms show ?thesis by (simp add: bit_0)
  qed
  ultimately have od: "odd ?i" by presburger
  then have i: "?i = 2 * (?i div 2) + 1" by presburger
  have d: "?i div 2 < 32" using lt by simp
  have "randomStringSource ! ?i = map (\<lambda>j. randomStringSource ! (2 * j + 1)) [0..<32] ! (?i div 2)"
    using d i by simp
  also have "\<dots> \<in> set (map (\<lambda>j. randomStringSource ! (2 * j + 1)) [0..<32])"
    using d by (intro nth_mem) simp
  finally show ?thesis
    unfolding odd_index_chars by (simp add: randomStringSource_length)
qed

text \<open>
  C3 says that \<^verbatim>\<open>RandomString(n)\<close> has \<open>n\<close> characters of the alphabet for every \<open>n \<ge> 0\<close>,
  each of the 64 equally likely. With a failing random source \<^verbatim>\<open>RandomString(3)\<close> is the
  18-character text \<^verbatim>\<open>RandomString Error\<close>, whose space is not in the alphabet; no odd
  draw ever selects the letter \<open>a\<close>; and \<^verbatim>\<open>RandomString(1<<62)\<close> returns nothing, it panics
  in \<^verbatim>\<open>make\<close>.
\<close>

theorem RandomString_counterexample:
  "fst (RandomString broken_rand_host 3 example_world) = Return ''RandomString Error''
   \<and> length ''RandomString Error'' = 18
   \<and> CHR '' '' \<notin> set randomStringSource
   \<and> \<not> (\<exists>x :: 64 word. odd x \<and>
          randomStringSource ! unat (x mod of_nat (length randomStringSource)) = CHR ''a'')
   \<and> fst (RandomString (example_host id) (2 ^ 62) example_world)
       = Panic ''runtime error: makeslice: len out of range''"
proof -
  have "fst (RandomString broken_rand_host 3 example_world) = Return ''RandomString Error''"
    by (simp add: RandomString_def maxAlloc_def broken_rand_host_def example_host_def
        example_world_def numeral_3_eq_3)
  moreover have "CHR '' '' \<notin> set randomStringSource"
    by (simp add: randomStringSource_def)
  moreover have "\<not> (\<exists>x :: 64 word. odd x \<and>
          randomStringSource ! unat (x mod of_nat (length randomStringSource)) = CHR ''a'')"
    using odd_draw_char by fastforce
  moreover have "fst (RandomString (example_host id) (2 ^ 62) example_world)
       = Panic ''runtime error: makeslice: len out of range''"
    by (simp add: RandomString_def maxAlloc_def)
  ultimately show ?thesis by simp
qed

theorem RandomString_length_alphabet_witness:
  "(\<exists>s. fst (RandomString (example_host id) 3 example_world) = Return s \<and> int (length s) = 3 \<and>
        set s \<subseteq> set randomStringSource \<and>
        s ! 0 = randomStringSource ! unat ((18446744073709551557 :: 64 word) mod 64) \<and>
        s ! 1 = randomStringSource ! unat ((18446744073709551557 :: 64 word) mod 64) \<and>
        s ! 2 = randomStringSource ! unat ((18446744073709551557 :: 64 word) mod 64))
   \<and> fst (RandomString broken_rand_host 3 example_world) = Return ''RandomString Error''
   \<and> fst (RandomString (example_host id) (- 1) example_world)
       = Panic ''runtime error: makeslice: len out of range''
   \<and> fst (RandomString (example_host id) (2 ^ 46 + 1) example_world)
       = Panic ''runtime error: makeslice: len out of range''"
proof -
  have b: "(0::int) \<le> 3 \<and> 4 * 3 \<le> int maxAlloc" by (simp add: maxAlloc_def)
  have d: "rand_Prime (example_host id) j = Inr 18446744073709551557" for j
    by (simp add: example_host_def)
  have 1: "\<forall>i < nat 3. \<exists>x. rand_Prime (example_host id) (rand_calls example_world + i) = Inr x"
    by (simp add: d)
  have 2: "\<exists>i < nat 3. \<exists>e. rand_Prime broken_rand_host (rand_calls example_world + i) = Inl e"
    by (intro exI[of _ 0]) (simp add: broken_rand_host_def example_host_def)
  have 3: "(- 1 :: int) < 0 \<or> int maxAlloc < 4 * (- 1)" by simp
  have 4: "(2 ^ 46 + 1 :: int) < 0 \<or> int maxAlloc < 4 * (2 ^ 46 + 1)"
    by (simp add: maxAlloc_def)
  note T = RandomString_length_alphabet
  from T[of 3 "example_host id" example_world] b 1
  obtain s where s: "fst (RandomString (example_host id) 3 example_world) = Return s"
    "int (length s) = 3" "set s \<subseteq> set randomStringSource"
    "\<forall>i < nat 3. \<forall>x. rand_Prime (example_host id) (rand_calls example_world + i) = Inr x \<longrightarrow>
                s ! i = randomStringSource ! unat (x mod 64)"
    by blast
  have n: "s ! i = randomStringSource ! unat ((18446744073709551557 :: 64 word) mod 64)"
    if "i < 3" for i
    using s(4) that d by simp
  have A: "\<exists>s. fst (RandomString (example_host id) 3 example_world) = Return s \<and>
        int (length s) = 3 \<and> set s \<subseteq> set randomStringSource \<and>
        s ! 0 = randomStringSource ! unat ((18446744073709551557 :: 64 word) mod 64) \<and>
        s ! 1 = randomStringSource ! unat ((18446744073709551557 :: 64 word) mod 64) \<and>
        s ! 2 = randomStringSource ! unat ((18446744073709551557 :: 64 word) mod 64)"
    using s(1,2,3) n[of 0] n[of 1] n[of 2] by (intro exI[of _ s]) simp
  from T[of 3 broken_rand_host example_world] b 2
  have B: "fst (RandomString broken_rand_host 3 example_world) = Return ''RandomString Error''"
    by blast
  from T[of "- 1" "example_host id" example_world] 3
  have C: "fst (RandomString (example_host id) (- 1) example_world)
       = Panic ''runtime error: makeslice: len out of range''" by blast
  from T[of "2 ^ 46 + 1" "example_host id" example_world] 4
  have D: "fst (RandomString (example_host id) (2 ^ 46 + 1) example_world)
       = Panic ''runtime error: makeslice: len out of range''" by blast
  from A B C D show ?thesis by blast
qed

section \<open>Properties of Slugify\<close>

lemma class_runes: "runes ''abcdefghijklmnopqrstuvwxyz0123456789'' = [97..<123] @ [48..<58]"
  by code_simp

lemma spec_outside_re_class: "spec_outside = re_class"
proof
  fix r
  have "r \<in> set ([97..<123] @ [48..<58]) \<longleftrightarrow> (97 \<le> r \<and> r \<le> 122) \<or> (48 \<le> r \<and> r \<le> 57)"
    unfolding set_append set_upt by auto
  then show "spec_outside r = re_class r"
    by (simp only: spec_outside_def re_class_def class_runes)
qed

subsection \<open>Maximal runs\<close>

lemma concat_spec_runs: "concat (spec_runs P xs) = xs"
  by (induction P xs rule: spec_runs.induct) simp_all

lemma spec_runs_uniform:
  "run \<in> set (spec_runs P xs) \<Longrightarrow> run \<noteq> [] \<and> (\<forall>y \<in> set run. P y = P (hd run))"
proof (induction P xs rule: spec_runs.induct)
  case (1 P)
  then show ?case by simp
next
  case (2 P x xs)
  let ?Q = "\<lambda>y. P y = P x"
  from "2.prems" consider (first) "run = x # takeWhile ?Q xs"
    | (later) "run \<in> set (spec_runs P (dropWhile ?Q xs))"
    by (simp only: spec_runs.simps set_simps insert_iff) blast
  then show ?case
  proof cases
    case first
    have nonempty: "run \<noteq> []" and hd: "hd run = x"
      using first by simp_all
    have "\<forall>y \<in> set run. P y = P x"
    proof
      fix y assume "y \<in> set run"
      then have "y = x \<or> y \<in> set (takeWhile ?Q xs)"
        using first by simp
      then show "P y = P x"
        by (blast dest: set_takeWhileD)
    qed
    then show ?thesis
      unfolding hd using nonempty by blast
  next
    case later
    then show ?thesis by (rule "2.IH")
  qed
qed

lemma spec_runs_hd:
  "spec_runs P xs \<noteq> [] \<Longrightarrow> hd (hd (spec_runs P xs)) = hd xs"
  by (cases xs) simp_all

lemma spec_runs_maximal:
  "Suc i < length (spec_runs P xs) \<Longrightarrow>
     P (hd (spec_runs P xs ! i)) \<noteq> P (hd (spec_runs P xs ! Suc i))"
proof (induction P xs arbitrary: i rule: spec_runs.induct)
  case (1 P)
  then show ?case by simp
next
  case (2 P x xs)
  let ?Q = "\<lambda>y. P y = P x"
  let ?rest = "dropWhile ?Q xs"
  have len: "length (spec_runs P (x # xs)) = Suc (length (spec_runs P ?rest))"
    by simp
  show ?case
  proof (cases i)
    case 0
    with "2.prems" len have "0 < length (spec_runs P ?rest)" by linarith
    then have ne: "spec_runs P ?rest \<noteq> []" by blast
    then have "?rest \<noteq> []" by (metis spec_runs.simps(1))
    then have d: "\<not> ?Q (hd ?rest)" by (rule hd_dropWhile)
    have a: "hd (spec_runs P (x # xs) ! 0) = x" by simp
    have "spec_runs P (x # xs) ! Suc 0 = hd (spec_runs P ?rest)"
      using ne by (simp add: hd_conv_nth)
    then have b: "hd (spec_runs P (x # xs) ! Suc 0) = hd ?rest"
      using spec_runs_hd[OF ne] by (simp only:)
    from d show ?thesis unfolding 0 a b by blast
  next
    case (Suc j)
    with "2.prems" len have "Suc j < length (spec_runs P ?rest)" by linarith
    then have "P (hd (spec_runs P ?rest ! j)) \<noteq> P (hd (spec_runs P ?rest ! Suc j))"
      by (rule "2.IH")
    moreover have "spec_runs P (x # xs) ! Suc j = spec_runs P ?rest ! j"
      "spec_runs P (x # xs) ! Suc (Suc j) = spec_runs P ?rest ! Suc j"
      by simp_all
    ultimately show ?thesis unfolding Suc by simp
  qed
qed

subsection \<open>The code against the specification's words\<close>

lemma ReplaceAll_keeps_prefix:
  "\<forall>y \<in> set ys. \<not> re_class y \<Longrightarrow>
     ReplaceAllLiteralString (ys @ zs) repl = ys @ ReplaceAllLiteralString zs repl"
  by (induction ys) simp_all

lemma ReplaceAll_hyphenate:
  "ReplaceAllLiteralString s repl =
     concat (map (\<lambda>run. if re_class (hd run) then repl else run) (spec_runs re_class s))"
proof (induction re_class s rule: spec_runs.induct)
  case 1
  then show ?case by simp
next
  case (2 x xs)
  show ?case
  proof (cases "re_class x")
    case True
    then have "(\<lambda>y. re_class y = re_class x) = re_class" by auto
    with True "2.hyps" show ?thesis by simp
  next
    case False
    let ?Q = "\<lambda>y. re_class y = re_class x"
    have "\<forall>y \<in> set (takeWhile ?Q xs). \<not> re_class y"
      using False by (auto dest: set_takeWhileD)
    from ReplaceAll_keeps_prefix[OF this, of "dropWhile ?Q xs" repl]
    have "ReplaceAllLiteralString xs repl =
        takeWhile ?Q xs @ ReplaceAllLiteralString (dropWhile ?Q xs) repl" by simp
    with False "2.hyps" show ?thesis by simp
  qed
qed

lemma trimLeftByte_dropWhile: "trimLeftByte s c = dropWhile (\<lambda>x. x = c) s"
  by (induction s) simp_all

lemma trimRightByte_dropWhile: "trimRightByte s c = rev (dropWhile (\<lambda>x. x = c) (rev s))"
proof (induction s rule: rev_induct)
  case Nil
  then show ?case by (subst trimRightByte.simps) simp
next
  case (snoc x xs)
  then show ?case by (subst trimRightByte.simps) simp
qed

lemma trim_ends_commute:
  "dropWhile P (rev (dropWhile P (rev s))) = rev (dropWhile P (rev (dropWhile P s)))"
proof (induction s)
  case Nil
  then show ?case by simp
next
  case (Cons x s)
  show ?case
  proof (cases "\<forall>y \<in> set s. P y")
    case True
    then have e: "dropWhile P s = []" "dropWhile P (rev s) = []" by simp_all
    from True show ?thesis by (simp add: dropWhile_append e)
  next
    case False
    with Cons show ?thesis by (auto simp: dropWhile_append)
  qed
qed

lemma Trim_spec_trim: "Trim s (runes ''-'') = spec_trim s"
  by (simp add: Trim_def spec_trim_def runes_def trimLeftByte_dropWhile trimRightByte_dropWhile
      trim_ends_commute)

lemma spec_slug_code:
  "spec_slug caseTable s =
     Trim (ReplaceAllLiteralString (ToLower caseTable s) (runes ''-'')) (runes ''-'')"
  by (simp add: spec_slug_def spec_hyphenate_def Trim_spec_trim ToLower_def
      ReplaceAll_hyphenate[of _ "runes ''-''"] spec_outside_re_class)

subsection \<open>C6: the slug\<close>

text \<open>
  C6: \<^verbatim>\<open>Slugify\<close> fails with the empty-input error on the empty string; otherwise it
  lower-cases the string, puts one hyphen for every maximal run of characters outside
  \<open>[a-z0-9]\<close> and trims the hyphens at both ends; when nothing is left it fails with the
  empty-result error, and otherwise it returns what is left, which is not empty.
\<close>

theorem Slugify_spec:
  "Slugify caseTable s =
     (if s = [] then ([], Some ''empty string not permitted'')
      else if spec_slug caseTable s = []
      then ([], Some ''after removing characters, slug is zero length'')
      else (spec_slug caseTable s, None))"
  by (simp add: Slugify_def Let_def spec_slug_code)

theorem Slugify_spec_witness:
  "Slugify example_caseTable (runes ''now is the time'') = (runes ''now-is-the-time'', None)
   \<and> Slugify example_caseTable [] = ([], Some ''empty string not permitted'')
   \<and> Slugify example_caseTable (runes ''Now is the time for all GOOD men! + fish & such &^123'')
       = (runes ''now-is-the-time-for-all-good-men-fish-such-123'', None)
   \<and> Slugify example_caseTable [0x3053, 0x3093, 0x306B, 0x3061, 0x306F]
       = ([], Some ''after removing characters, slug is zero length'')
   \<and> Slugify example_caseTable (runes ''hello world '' @ [0x3053, 0x3093, 0x306B, 0x3061, 0x306F])
       = (runes ''hello-world'', None)"
proof -
  note d = spec_slug_def spec_hyphenate_def spec_trim_def spec_outside_def unicode_ToLower_def
    example_caseTable_def runes_def
  have 1: "spec_slug example_caseTable (runes ''now is the time'') = runes ''now-is-the-time''"
    by (simp add: d)
  have 2: "spec_slug example_caseTable
      (runes ''Now is the time for all GOOD men! + fish & such &^123'')
       = runes ''now-is-the-time-for-all-good-men-fish-such-123''"
    by (simp add: d)
  have 3: "spec_slug example_caseTable [0x3053, 0x3093, 0x306B, 0x3061, 0x306F] = []"
    by (simp add: d)
  have 4: "spec_slug example_caseTable
      (runes ''hello world '' @ [0x3053, 0x3093, 0x306B, 0x3061, 0x306F]) = runes ''hello-world''"
    by (simp add: d)
  show ?thesis
    unfolding Slugify_spec[of example_caseTable] 1 2 3 4
    by (simp add: runes_def)
qed

section \<open>Properties of ReadJSON\<close>

lemma ReadJSON_parts:
  "ReadJSON lib t body data =
     (case Decode (Unmarshal lib) (body_decoder t body) data of
        (Some err, dec1, data1) \<Rightarrow> (Some (decode_failure lib (maxBytes_of t) err), data1)
      | (None, dec1, data1) \<Rightarrow>
          (case Decode (\<lambda>disallow v u. (Unmarshal_struct lib disallow v, u)) dec1 () of
             (err2, dec2, u) \<Rightarrow>
               if err2 \<noteq> Some io_EOF
               then (Some ''body must contain only one JSON value'', data1)
               else (None, data1)))"
proof -
  have "(if \<not> AllowUnknownFields t
         then (NewDecoder (MaxBytesReader body (maxBytes_of t)))\<lparr>disallowUnknownFields := True\<rparr>
         else NewDecoder (MaxBytesReader body (maxBytes_of t))) = body_decoder t body"
    by (simp add: body_decoder_def NewDecoder_def)
  then show ?thesis
    unfolding ReadJSON_def Let_def maxBytes_of_def[symmetric] by simp
qed

lemma scan_buf_spaces:
  "step s = StBeginValue \<Longrightarrow> \<forall>c \<in> set b. isSpace c \<Longrightarrow>
     \<exists>s'. scan_buf s b p = (Exhausted, s') \<and> step s' = StBeginValue"
proof (induction b arbitrary: s p)
  case Nil
  then show ?case by simp
next
  case (Cons c b)
  then have c: "isSpace c" by simp
  let ?s1 = "s\<lparr>scan_bytes := scan_bytes s + 1\<rparr>"
  have st: "scan_step ?s1 c = (scanSkipSpace, ?s1)"
    using Cons.prems(1) c by (simp add: scan_step_def stateBeginValue_def)
  have "step ?s1 = StBeginValue" using Cons.prems(1) by simp
  moreover have "\<forall>c \<in> set b. isSpace c" using Cons.prems(2) by simp
  ultimately obtain s' where "scan_buf ?s1 b (p + 1) = (Exhausted, s')" "step s' = StBeginValue"
    using Cons.IH by blast
  with st show ?case by simp
qed

lemma readValue_EOF_iff:
  "fst (readValue dec) = Inl io_EOF \<longleftrightarrow> \<not> dec_over dec \<and> \<not> nonSpace (dec_rest dec)"
proof
  assume "fst (readValue dec) = Inl io_EOF"
  then show "\<not> dec_over dec \<and> \<not> nonSpace (dec_rest dec)"
    by (auto simp: readValue_def Let_def split: prod.splits scan_result.splits if_splits option.splits)
next
  assume a: "\<not> dec_over dec \<and> \<not> nonSpace (dec_rest dec)"
  then have sp: "\<forall>c \<in> set (dec_rest dec). isSpace c"
    by (simp add: nonSpace_def list_ex_iff)
  have "step (reset (dec_scan dec)) = StBeginValue" by (simp add: reset_def)
  from scan_buf_spaces[OF this sp, of 0] obtain s'
    where s': "scan_buf (reset (dec_scan dec)) (dec_rest dec) 0 = (Exhausted, s')"
      "step s' = StBeginValue" by blast
  have "scan_step s' (CHR '' '') = (scanSkipSpace, s')"
    using s'(2) by (simp add: scan_step_def stateBeginValue_def isSpace_def)
  with s' a show "fst (readValue dec) = Inl io_EOF"
    by (simp add: readValue_def)
qed

lemma readValue_Inr:
  "readValue dec = (Inr n, dec1) \<Longrightarrow> \<exists>s. dec1 = dec\<lparr>dec_scan := s\<rparr>"
  by (auto simp: readValue_def Let_def split: prod.splits scan_result.splits if_splits)

lemma Decode_None:
  assumes "Decode um dec v = (None, dec1, v1)"
  shows "\<exists>n s. dec_err dec = None \<and> readValue dec = (Inr n, dec\<lparr>dec_scan := s\<rparr>) \<and>
           dec1 = dec\<lparr>dec_scan := s, dec_rest := drop n (dec_rest dec)\<rparr> \<and>
           um (disallowUnknownFields dec) (take n (dec_rest dec)) v = (None, v1)"
proof -
  from assms have e: "dec_err dec = None"
    by (auto simp: Decode_def split: option.splits)
  obtain r d where rv: "readValue dec = (r, d)" by force
  with assms e obtain n where n: "r = Inr n"
    by (cases r) (auto simp: Decode_def)
  from readValue_Inr[OF rv[unfolded n]] obtain s where s: "d = dec\<lparr>dec_scan := s\<rparr>" by blast
  from assms e rv n s show ?thesis
    by (auto simp: Decode_def split: prod.splits)
qed

lemma Decode_EOF_iff:
  assumes "dec_err dec = None"
  shows "fst (Decode (\<lambda>disallow v u. (um disallow v, u)) dec ()) = Some io_EOF
           \<longleftrightarrow> \<not> dec_over dec \<and> \<not> nonSpace (dec_rest dec)"
proof -
  obtain r d where rv: "readValue dec = (r, d)" by force
  have "fst (Decode (\<lambda>disallow v u. (um disallow v, u)) dec ()) = Some io_EOF \<longleftrightarrow> r = Inl io_EOF"
    using assms rv by (cases r) (auto simp: Decode_def split: prod.splits option.splits)
  with readValue_EOF_iff[of dec] rv show ?thesis by simp
qed

subsection \<open>C7: the second decode\<close>

text \<open>
  C7, as amended: when the first value of the body decodes into the destination,
  \<^verbatim>\<open>ReadJSON\<close> decodes a second, discarded value and returns the error
  ``body must contain only one JSON value'' exactly when that decode does not return
  \<^verbatim>\<open>io.EOF\<close>. It returns no error exactly when the body is not longer than the limit and
  holds nothing but white space behind its first value; the destination then holds
  what the first value, a prefix of the body, has put there.
\<close>

theorem ReadJSON_second_value:
  assumes "Decode (Unmarshal lib) (body_decoder t body) data = (None, dec1, data1)"
  shows "ReadJSON lib t body data =
           (if fst (Decode (\<lambda>disallow v u. (Unmarshal_struct lib disallow v, u)) dec1 ())
                 \<noteq> Some io_EOF
            then (Some ''body must contain only one JSON value'', data1)
            else (None, data1))
       \<and> (fst (ReadJSON lib t body data) = None \<longleftrightarrow>
            length body \<le> nat (maxBytes_of t) \<and> (\<forall>c \<in> set (dec_rest dec1). isSpace c))
       \<and> (\<exists>n. dec_rest dec1 = drop n (take (nat (maxBytes_of t)) body) \<and>
              Unmarshal lib (\<not> AllowUnknownFields t) (take n (take (nat (maxBytes_of t)) body)) data
                = (None, data1))"
proof -
  let ?dec = "body_decoder t body"
  let ?second = "fst (Decode (\<lambda>disallow v u. (Unmarshal_struct lib disallow v, u)) dec1 ())"
  from Decode_None[OF assms] obtain n s where d:
    "dec_err ?dec = None"
    "dec1 = ?dec\<lparr>dec_scan := s, dec_rest := drop n (dec_rest ?dec)\<rparr>"
    "Unmarshal lib (disallowUnknownFields ?dec) (take n (dec_rest ?dec)) data = (None, data1)"
    by blast
  have rest: "dec_rest ?dec = take (nat (maxBytes_of t)) body"
    and over: "dec_over ?dec = (nat (maxBytes_of t) < length body)"
    and dis: "disallowUnknownFields ?dec = (\<not> AllowUnknownFields t)"
    by (simp_all add: body_decoder_def NewDecoder_def MaxBytesReader_def)
  have e1: "dec_err dec1 = None" and o1: "dec_over dec1 = dec_over ?dec"
    using d(1,2) by simp_all
  have A: "ReadJSON lib t body data =
           (if ?second \<noteq> Some io_EOF
            then (Some ''body must contain only one JSON value'', data1)
            else (None, data1))"
    unfolding ReadJSON_parts assms by (simp split: prod.splits)
  have "?second = Some io_EOF \<longleftrightarrow> \<not> dec_over dec1 \<and> \<not> nonSpace (dec_rest dec1)"
    using e1 by (rule Decode_EOF_iff)
  then have B: "fst (ReadJSON lib t body data) = None \<longleftrightarrow>
            length body \<le> nat (maxBytes_of t) \<and> (\<forall>c \<in> set (dec_rest dec1). isSpace c)"
    unfolding A o1 over by (auto simp: nonSpace_def list_ex_iff)
  have C: "\<exists>n. dec_rest dec1 = drop n (take (nat (maxBytes_of t)) body) \<and>
              Unmarshal lib (\<not> AllowUnknownFields t) (take n (take (nat (maxBytes_of t)) body)) data
                = (None, data1)"
    using d(2,3) unfolding rest dis by (intro exI[of _ n]) simp
  from A B C show ?thesis by blast
qed

subsection \<open>C8: a body longer than the limit\<close>


subsection \<open>C9: the message for an unknown key\<close>

text \<open>
  C9 says that the message for an unknown key is ``body contains unknown key''
  followed by the quoted name of the key and nothing else. Line 240 trims the prefix
  \<^verbatim>\<open>json: unknown fifeld\<close>, which no message of the decoder begins with, so nothing is
  trimmed: for the body with the one key \<open>fooo\<close> and unknown fields disallowed the
  message still carries \<^verbatim>\<open>json: unknown field\<close> in front of the quoted name.
\<close>

theorem ReadJSON_unknown_key_example:
  "ReadJSON example_lib (json_tools 1024 False) (''{'' @ dq ''fooo'' @ '': '' @ dq ''bar'' @ ''}'') []
     = (Some (''body contains unknown key json: unknown field '' @ dq ''fooo''), [])"
  by code_simp

text \<open>The same for every name: the decoder's own prefix stays in the message.\<close>

lemma unknown_field_prefix_kept:
  "decode_failure lib maxBytes (UnmarshalFailure (ErrorString (''json: unknown field '' @ name)))
     = ''body contains unknown key json: unknown field '' @ name"
  by (simp add: decode_failure_def HasPrefix_def TrimPrefix_def)

text \<open>
  C7 says that a body with exactly one JSON value gives no error. The three bytes of
  \<open>{}\<close> and a blank hold one JSON value; with a limit of 2 the second decode meets the
  limit, not the end of the body, and \<^verbatim>\<open>ReadJSON\<close> reports a second value. With a limit
  of 3 the same body gives no error.
\<close>

theorem ReadJSON_one_value_over_limit_counterexample:
  "length ''{} '' = 3
   \<and> ReadJSON example_lib (json_tools 2 True) ''{} '' []
       = (Some ''body must contain only one JSON value'', [])
   \<and> ReadJSON example_lib (json_tools 3 True) ''{} '' [] = (None, [])"
  by code_simp


theorem ReadJSON_second_value_witness:
  "ReadJSON example_lib (json_tools 1024 False)
       (''{'' @ dq ''foo'' @ '': '' @ dq ''bar'' @ ''}  '') [] = (None, ''bar'')
   \<and> ReadJSON example_lib (json_tools 1024 False) ''{}{}'' ''old''
       = (Some ''body must contain only one JSON value'', ''old'')"
proof -
  let ?t = "json_tools 1024 False"
  let ?b1 = "''{'' @ dq ''foo'' @ '': '' @ dq ''bar'' @ ''}  ''"
  let ?X1 = "Decode (Unmarshal example_lib) (body_decoder ?t ?b1) []"
  let ?X2 = "Decode (Unmarshal example_lib) (body_decoder ?t ''{}{}'') ''old''"
  let ?second = "\<lambda>d. fst (Decode (\<lambda>disallow v u. (Unmarshal_struct example_lib disallow v, u)) d ())"
  have f1: "fst ?X1 = None" by code_simp
  have f2: "fst ?X2 = None" by code_simp
  have h1: "?X1 = (None, fst (snd ?X1), snd (snd ?X1))"
    using f1 by (metis prod.collapse)
  have h2: "?X2 = (None, fst (snd ?X2), snd (snd ?X2))"
    using f2 by (metis prod.collapse)
  have e1: "?second (fst (snd ?X1)) = Some io_EOF" by code_simp
  have e2: "?second (fst (snd ?X2)) \<noteq> Some io_EOF" by code_simp
  have d1: "snd (snd ?X1) = ''bar''" by code_simp
  have d2: "snd (snd ?X2) = ''old''" by code_simp
  from ReadJSON_second_value[OF h1, THEN conjunct1] e1 d1
  have A: "ReadJSON example_lib ?t ?b1 [] = (None, ''bar'')" by simp
  from ReadJSON_second_value[OF h2, THEN conjunct1] e2 d2
  have B: "ReadJSON example_lib ?t ''{}{}'' ''old''
       = (Some ''body must contain only one JSON value'', ''old'')" by simp
  from A B show ?thesis by blast
qed


end
